theory Spec2Isabelle
  imports Complex_Main "HOL-Library.Log_Nat"
begin

section \<open>Numbers\<close>

text \<open>
  Every \<^verbatim>\<open>number\<close> of \<^verbatim>\<open>main.ts\<close> is an IEEE-754 double, and every arithmetic
  operation returns the double nearest to the exact result. A number is modelled as the
  \<^typ>\<open>real\<close> it denotes, and \<open>dbl\<close> below is the rounding of an exact result to the
  nearest double. The rounding is written out where the source computes with chart times
  and with the literal \<^verbatim>\<open>0.02\<close>, which is not a double: the sustain test and the tail
  of \<^verbatim>\<open>createNote\<close>, the two expiry limits and the judgement of a tail release. Tick
  counts, the multiples of 3.5 a note travels and the score arithmetic on multiples of a
  tenth are written without it, and so is the movement of a tail. \<^verbatim>\<open>noteCount\<close>
  starts at 0 and is only ever incremented, and is printed into identifiers, so it is a
  \<^typ>\<open>nat\<close>. The random number generator works on integers beyond \<open>2^53\<close>; its
  rounding is modelled on integers (\<open>fl\<close> below).

  \<open>pow2 e\<close> is \<open>2\<close> to the power \<open>e\<close>, \<open>binade x\<close> the exponent \<open>k\<close> with
  \<open>2^k \<le> \<bar>x\<bar> < 2^(k+1)\<close>, and \<open>rne\<close> rounds to the nearest integer, a tie going to the
  even one. A double has 53 significant bits, so the doubles of the binade \<open>k\<close> are the
  multiples of \<open>2^(k-52)\<close>. (Overflow and subnormal numbers are not modelled; the times
  and lengths of the game are far from both.)
\<close>

definition pow2 :: "int \<Rightarrow> real" where
  "pow2 e = (if 0 \<le> e then 2 ^ nat e else 1 / 2 ^ nat (- e))"

definition binade :: "real \<Rightarrow> int" where
  "binade x =
     (if 1 \<le> \<bar>x\<bar> then bitlen \<lfloor>\<bar>x\<bar>\<rfloor> - 1 else - bitlen (\<lceil>1 / \<bar>x\<bar>\<rceil> - 1))"

definition rne :: "real \<Rightarrow> int" where
  "rne r =
     (let f = \<lfloor>r\<rfloor> in
      if r - of_int f < 1 / 2 then f
      else if 1 / 2 < r - of_int f then f + 1
      else if even f then f else f + 1)"

definition dbl :: "real \<Rightarrow> real" where
  "dbl x =
     (if x = 0 then 0
      else pow2 (binade x - 52) * of_int (rne (x / pow2 (binade x - 52))))"

text \<open>
  \<^verbatim>\<open>x % y\<close> is the remainder of the division truncated towards zero (it has the sign
  of \<^verbatim>\<open>x\<close>) and is exact on doubles.
\<close>

definition trunc :: "real \<Rightarrow> int" where
  "trunc r = (if 0 \<le> r then \<lfloor>r\<rfloor> else \<lceil>r\<rceil>)"

definition js_rem :: "real \<Rightarrow> real \<Rightarrow> real" where
  "js_rem a b = a - b * of_int (trunc (a / b))"

text \<open>\<^verbatim>\<open>Math.round\<close>: the nearest integer, a tie going up.\<close>

definition Math_round :: "real \<Rightarrow> real" where
  "Math_round r = of_int \<lfloor>r + 1 / 2\<rfloor>"

text \<open>The decimal digits of a natural number, as a template literal prints it.\<close>

fun digits :: "nat \<Rightarrow> string" where
  "digits n =
     (if n < 10 then [char_of (48 + n)]
      else digits (n div 10) @ [char_of (48 + n mod 10)])"

declare digits.simps [simp del]

section \<open>Constants\<close>

definition CANVAS_WIDTH :: real where "CANVAS_WIDTH = 200"
definition CANVAS_HEIGHT :: real where "CANVAS_HEIGHT = 400"

definition TICK_RATE_MS :: real where "TICK_RATE_MS = 20"
text \<open>The literal \<^verbatim>\<open>0.02\<close> is the double nearest to two hundredths.\<close>

definition SECOND_PER_TICK :: real where "SECOND_PER_TICK = dbl (2 / 100)"

definition TAIL_WIDTH :: real where "TAIL_WIDTH = 10"
definition NOTE_PATH_LENGTH :: real where "NOTE_PATH_LENGTH = 350"
definition NOTE_TRAVEL_DURATION :: real where "NOTE_TRAVEL_DURATION = 2000"
definition NOTE_ALIGNMENT_TOLERANCE :: real where "NOTE_ALIGNMENT_TOLERANCE = 30"

section \<open>Types\<close>

text \<open>
  The fields keep the names of the source, prefixed where two types share a name or the
  name is reserved: \<^verbatim>\<open>Tail.id\<close> is \<open>tail_id\<close>, \<^verbatim>\<open>Note.end\<close> is \<open>note_end\<close>,
  \<^verbatim>\<open>State.note\<close> is \<open>live_note\<close>, and so on.
\<close>

record Tail =
  tail_id :: string
  tail_createTime :: real
  width :: real
  height :: real
  tail_x :: string
  tail_y :: real
  duration :: real
  style :: string

record Note =
  note_id :: string
  note_createTime :: real
  userPlayed :: bool
  instrumentName :: string
  velocity :: real
  pitch :: real
  note_start :: real
  note_end :: real
  cx :: string
  cy :: real
  note_tail :: "Tail option"

text \<open>\<^verbatim>\<open>exit\<close> is an array of \<^verbatim>\<open>Note | Tail\<close>.\<close>

datatype Elem = ExitNote Note | ExitTail Tail

record State =
  time :: real
  gameEnd :: bool
  live_note :: "Note list"
  live_tail :: "Tail list"
  exit_list :: "Elem list"
  noteCount :: nat
  score :: real
  playNote :: "Note list"
  backgroundNote :: "Note list"
  randomNotes :: "Note list"
  consecutiveHits :: real
  multiplier :: real

text \<open>
  The events of the merged stream. The game end arrives as a \<^verbatim>\<open>Number\<close> object, which
  \<^verbatim>\<open>reduceState\<close> recognises as being none of the five classes.
\<close>

datatype Event =
    MusicNote Note
  | Tick real
  | KeyPressEvent real
  | BackgroundNote Note
  | EndTail real
  | GameEndNumber real

section \<open>Utility functions\<close>

definition assignColumn :: "real \<Rightarrow> real" where
  "assignColumn p = js_rem p 4"

definition movementPerTick :: real where
  "movementPerTick = NOTE_PATH_LENGTH / (NOTE_TRAVEL_DURATION / TICK_RATE_MS)"

definition tailLength :: "real \<Rightarrow> real" where
  "tailLength noteDuration =
     dbl (dbl (NOTE_PATH_LENGTH / NOTE_TRAVEL_DURATION) * dbl (noteDuration * 1000))"

definition isAlignedCurried :: "real \<Rightarrow> real \<Rightarrow> Note \<Rightarrow> bool" where
  "isAlignedCurried tolerance targetCy n \<longleftrightarrow> \<bar>cy n - targetCy\<bar> \<le> tolerance"

definition isAligned :: "Note \<Rightarrow> bool" where
  "isAligned = isAlignedCurried NOTE_ALIGNMENT_TOLERANCE NOTE_PATH_LENGTH"

text \<open>
  Indexing a four-element array literal with a column: any index other than 0, 1, 2, 3
  reads \<^verbatim>\<open>undefined\<close>, which the template literal prints as such.
\<close>

definition pick4 :: "string \<Rightarrow> string \<Rightarrow> string \<Rightarrow> string \<Rightarrow> real \<Rightarrow> string" where
  "pick4 a b c d i =
     (if i = 0 then a else if i = 1 then b else if i = 2 then c
      else if i = 3 then d else ''undefined'')"

section \<open>State processing\<close>

definition initialState :: State where
  "initialState = \<lparr> time = 0, gameEnd = False, live_note = [], live_tail = [],
     exit_list = [], noteCount = 0, score = 0, playNote = [], backgroundNote = [],
     randomNotes = [], consecutiveHits = 0, multiplier = 1 \<rparr>"

definition createTail :: "State \<Rightarrow> Note \<Rightarrow> Tail" where
  "createTail s n =
     (let tailDistance = tailLength (dbl (note_end n - note_start n)) in
      \<lparr> tail_id = ''Tail'' @ digits (noteCount s),
        tail_createTime = time s,
        width = TAIL_WIDTH,
        height = tailDistance,
        tail_x = pick4 ''35'' ''75'' ''115'' ''155'' (assignColumn (pitch n)),
        tail_y = - 1 * tailDistance,
        duration = dbl (note_end n - note_start n),
        style = ''fill: '' @ pick4 ''green'' ''red'' ''blue'' ''yellow'' (assignColumn (pitch n)) \<rparr>)"

text \<open>The dummy note \<^verbatim>\<open>createNote\<close> returns for a key press.\<close>

definition dummyNote :: Note where
  "dummyNote = \<lparr> note_id = '''', note_createTime = 0, userPlayed = True,
     instrumentName = ''piano'', velocity = 0, pitch = 0, note_start = 0, note_end = 0,
     cx = '''', cy = 0, note_tail = None \<rparr>"

text \<open>
  \<^verbatim>\<open>createNote\<close> for a \<^verbatim>\<open>MusicNote\<close> (\<open>isMusic\<close>) or a \<^verbatim>\<open>BackgroundNote\<close> carrying
  the note \<open>n\<close>.
\<close>

definition createNote :: "State \<Rightarrow> bool \<Rightarrow> Note \<Rightarrow> Note" where
  "createNote s isMusic n =
     \<lparr> note_id = (if isMusic then ''note'' @ digits (noteCount s) else ''''),
       note_createTime = time s,
       userPlayed = userPlayed n,
       instrumentName = instrumentName n,
       velocity = velocity n,
       pitch = pitch n,
       note_start = note_start n,
       note_end = note_end n,
       cx = cx n,
       cy = 0,
       note_tail =
         (if dbl (note_end n - note_start n) \<ge> 1 then Some (createTail s n) else None) \<rparr>"

definition moveNote :: "Note \<Rightarrow> Note" where
  "moveNote n = n\<lparr> cy := cy n + movementPerTick \<rparr>"

definition moveTail :: "Tail \<Rightarrow> Tail" where
  "moveTail t =
     (if tail_y t + height t \<ge> NOTE_PATH_LENGTH then
        (let newHeight = max 0 (height t - movementPerTick) in
         t\<lparr> height := newHeight, tail_y := NOTE_PATH_LENGTH - newHeight \<rparr>)
      else t\<lparr> tail_y := tail_y t + movementPerTick \<rparr>)"

definition noteExpired :: "real \<Rightarrow> Note \<Rightarrow> bool" where
  "noteExpired elapsed n \<longleftrightarrow>
     elapsed - note_createTime n
       > dbl (dbl (NOTE_TRAVEL_DURATION / 1000) / SECOND_PER_TICK)"

definition tailExpired :: "real \<Rightarrow> Tail \<Rightarrow> bool" where
  "tailExpired elapsed t \<longleftrightarrow>
     elapsed - tail_createTime t > dbl (dbl (duration t * 5) / SECOND_PER_TICK)"

definition missedNotes :: "State \<Rightarrow> real \<Rightarrow> Note list" where
  "missedNotes s elapsed =
     filter (\<lambda>n. note_tail n = None)
       (filter (\<lambda>n. n \<notin> set (playNote s))
          (filter (noteExpired elapsed) (live_note s)))"

definition tick :: "State \<Rightarrow> real \<Rightarrow> State" where
  "tick s elapsed =
     (let expiredNote = filter (noteExpired elapsed) (live_note s);
          activeNote = filter (\<lambda>n. \<not> noteExpired elapsed n) (live_note s);
          expiredTail = filter (tailExpired elapsed) (live_tail s);
          activeTail = filter (\<lambda>t. \<not> tailExpired elapsed t) (live_tail s)
      in s\<lparr> live_note := map moveNote activeNote,
            live_tail := map moveTail activeTail,
            exit_list := map ExitNote expiredNote @ map ExitTail expiredTail,
            time := elapsed,
            playNote := [],
            backgroundNote := [],
            randomNotes := [],
            consecutiveHits :=
              (if length (missedNotes s elapsed) > 0 then 0 else consecutiveHits s),
            multiplier :=
              (if length (missedNotes s elapsed) > 0 then 1 else multiplier s) \<rparr>)"

text \<open>The object \<^verbatim>\<open>calculateMultiplierAndScore\<close> returns.\<close>

record ScoreUpdate =
  newStreak :: real
  roundedMultiplier :: real
  roundedScore :: real

definition calculateMultiplierAndScore :: "State \<Rightarrow> ScoreUpdate" where
  "calculateMultiplierAndScore s =
     (let streak = consecutiveHits s + 1;
          newMultiplier =
            (if js_rem streak 10 = 0 then multiplier s + 2 / 10 else multiplier s);
          rMultiplier = Math_round (newMultiplier * 10) / 10;
          rScore = Math_round ((score s + 1 * rMultiplier) * 10) / 10
      in \<lparr> newStreak = streak, roundedMultiplier = rMultiplier, roundedScore = rScore \<rparr>)"

definition isTailAlign :: "State \<Rightarrow> real \<Rightarrow> bool" where
  "isTailAlign s endTime \<longleftrightarrow>
     \<bar>dbl (dbl (dbl (time s * SECOND_PER_TICK) - endTime)
            - dbl (NOTE_TRAVEL_DURATION / 1000))\<bar> \<le> 25 / 100"

text \<open>
  \<^verbatim>\<open>processNoteEvent\<close> takes a \<^verbatim>\<open>KeyPressEvent | EndTail\<close>. Its \<^verbatim>\<open>else\<close> branch
  serves whatever is not a key press; an event with no \<^verbatim>\<open>endTime\<close> would read
  \<^verbatim>\<open>undefined\<close> there, compare false and take the reset branch. \<^verbatim>\<open>reduceState\<close>
  never passes one.
\<close>

fun processNoteEvent :: "State \<Rightarrow> Event \<Rightarrow> State" where
  "processNoteEvent s (KeyPressEvent column) =
     (case find (\<lambda>n. assignColumn (pitch n) = column) (live_note s) of
        Some activeNote \<Rightarrow>
          if isAligned activeNote then
            if note_tail activeNote = None then
              (let u = calculateMultiplierAndScore s in
               s\<lparr> live_note := filter (\<lambda>n. n \<noteq> activeNote) (live_note s),
                  exit_list := exit_list s @ [ExitNote activeNote],
                  score := roundedScore u,
                  playNote := playNote s @ [activeNote],
                  consecutiveHits := newStreak u,
                  multiplier := roundedMultiplier u \<rparr>)
            else
              s\<lparr> live_note := filter (\<lambda>n. n \<noteq> activeNote) (live_note s),
                 exit_list := exit_list s @ [ExitNote activeNote],
                 playNote := playNote s @ [activeNote] \<rparr>
          else s\<lparr> randomNotes := randomNotes s @ [dummyNote] \<rparr>
      | None \<Rightarrow> s\<lparr> randomNotes := randomNotes s @ [dummyNote] \<rparr>)"
| "processNoteEvent s (EndTail endTime) =
     (if isTailAlign s endTime then
        (let u = calculateMultiplierAndScore s in
         s\<lparr> score := roundedScore u,
            consecutiveHits := newStreak u,
            multiplier := roundedMultiplier u \<rparr>)
      else s\<lparr> consecutiveHits := 0, multiplier := 1 \<rparr>)"
| "processNoteEvent s _ = s\<lparr> consecutiveHits := 0, multiplier := 1 \<rparr>"

fun reduceState :: "State \<Rightarrow> Event \<Rightarrow> State" where
  "reduceState s (MusicNote n) =
     (let newNote = createNote s True n in
      case note_tail newNote of
        Some t \<Rightarrow> s\<lparr> live_note := live_note s @ [newNote],
                     noteCount := noteCount s + 1,
                     live_tail := live_tail s @ [t] \<rparr>
      | None \<Rightarrow> s\<lparr> live_note := live_note s @ [newNote],
                   noteCount := noteCount s + 1 \<rparr>)"
| "reduceState s (KeyPressEvent column) = processNoteEvent s (KeyPressEvent column)"
| "reduceState s (BackgroundNote n) =
     s\<lparr> playNote := backgroundNote s @ [createNote s False n] \<rparr>"
| "reduceState s (Tick elapsed) = tick s elapsed"
| "reduceState s (EndTail endTime) = processNoteEvent s (EndTail endTime)"
| "reduceState s (GameEndNumber g) = s\<lparr> gameEnd := True \<rparr>"


text \<open>The states the game can be in: the fold of \<^verbatim>\<open>reduceState\<close> over any events.\<close>

definition run :: "Event list \<Rightarrow> State" where
  "run es = foldl reduceState initialState es"

text \<open>
  Objects are compared here by value, where \<^verbatim>\<open>includes\<close> and \<^verbatim>\<open>!==\<close> compare
  references. The two agree on a state in which no two distinct note objects are equal
  field by field; that the states the reducer reaches are such is proved below
  (\<open>value_equality_is_identity\<close>).
\<close>

section \<open>The random number generator\<close>

text \<open>
  \<open>fl n\<close> is the double nearest to the integer \<open>n\<close>: \<open>n\<close> itself when it has at
  most 53 bits, and otherwise the nearest multiple of \<open>2 ^ (bitlen n - 53)\<close>, a tie
  going to the even multiple. (Doubles overflow beyond \<open>2 ^ 1024\<close>; no state of the
  generator comes near.)
\<close>

definition fl :: "int \<Rightarrow> int" where
  "fl n =
     (let k = bitlen \<bar>n\<bar> - 53 in
      if k \<le> 0 then n
      else
        (let q = 2 ^ nat k; d = n div q; r = n mod q in
         if 2 * r < q then d * q
         else if q < 2 * r then (d + 1) * q
         else if even d then d * q else (d + 1) * q))"

text \<open>\<^verbatim>\<open>%\<close> on integers: the remainder with the sign of the dividend.\<close>

definition js_rem_int :: "int \<Rightarrow> int \<Rightarrow> int" where
  "js_rem_int a b = sgn a * (\<bar>a\<bar> mod \<bar>b\<bar>)"

definition RNG_m :: int where "RNG_m = 2147483648"
definition RNG_a :: int where "RNG_a = 1103515245"
definition RNG_c :: int where "RNG_c = 12345"

definition hash :: "int \<Rightarrow> int" where
  "hash seed = js_rem_int (fl (fl (RNG_a * seed) + RNG_c)) RNG_m"

definition scale :: "int \<Rightarrow> real" where
  "scale h = of_int h / of_int (RNG_m - 1)"

text \<open>
  \<^verbatim>\<open>createRngStreamFromSource\<close>: the accumulator starts at the seed, every value of
  the source replaces it by its hash, and the stream emits the scaled accumulator. These
  are the first \<open>k\<close> values emitted.
\<close>

definition createRngStream :: "int \<Rightarrow> nat \<Rightarrow> real list" where
  "createRngStream seed k = map (\<lambda>i. scale ((hash ^^ Suc i) seed)) [0..<k]"

section \<open>Notions the properties are stated with\<close>

text \<open>A value rounded to one decimal: the nearest multiple of a tenth, a tie going up.\<close>

definition round_1dp :: "real \<Rightarrow> real" where
  "round_1dp v = of_int (round (v * 10)) / 10"

text \<open>
  The events that take a scoring path of \<^verbatim>\<open>processNoteEvent\<close>: a press that finds an
  aligned note with no tail, and an aligned tail release.
\<close>

fun is_hit :: "State \<Rightarrow> Event \<Rightarrow> bool" where
  "is_hit s (KeyPressEvent column) =
     (case find (\<lambda>n. assignColumn (pitch n) = column) (live_note s) of
        Some activeNote \<Rightarrow> isAligned activeNote \<and> note_tail activeNote = None
      | None \<Rightarrow> False)"
| "is_hit s (EndTail endTime) = isTailAlign s endTime"
| "is_hit s _ = False"

text \<open>
  The events that break a streak: a tick that finds a missed note, and a tail release
  that is not aligned. A run with no miss, and the number of hits in a run.
\<close>

fun is_miss :: "State \<Rightarrow> Event \<Rightarrow> bool" where
  "is_miss s (Tick elapsed) = (missedNotes s elapsed \<noteq> [])"
| "is_miss s (EndTail endTime) = (\<not> isTailAlign s endTime)"
| "is_miss s _ = False"

fun no_miss :: "State \<Rightarrow> Event list \<Rightarrow> bool" where
  "no_miss s [] = True"
| "no_miss s (e # es) = (\<not> is_miss s e \<and> no_miss (reduceState s e) es)"

fun count_hits :: "State \<Rightarrow> Event list \<Rightarrow> nat" where
  "count_hits s [] = 0"
| "count_hits s (e # es) = (if is_hit s e then 1 else 0) + count_hits (reduceState s e) es"

text \<open>
  The identifiers of a state are in order: the live notes carry pairwise distinct
  identifiers \<^verbatim>\<open>note<k>\<close> with \<open>k\<close> below \<^verbatim>\<open>noteCount\<close>, and no note of \<^verbatim>\<open>playNote\<close>
  carries the identifier of a live note.
\<close>

definition ids_ok :: "State \<Rightarrow> bool" where
  "ids_ok s \<longleftrightarrow>
     distinct (map note_id (live_note s))
     \<and> (\<forall>n \<in> set (live_note s). \<exists>k < noteCount s. note_id n = ''note'' @ digits k)
     \<and> (\<forall>p \<in> set (playNote s). note_id p \<notin> set (map note_id (live_note s))
           \<and> (note_id p = [] \<or> (\<exists>k < noteCount s. note_id p = ''note'' @ digits k)))
     \<and> backgroundNote s = []"

section \<open>Example inputs\<close>

text \<open>
  Notes as the chart parser emits them (empty identifier, no tail yet): two short player
  notes in the lanes 0 and 1, a sustained player note of two seconds in lane 1, and two
  ambient notes.
\<close>

definition short_note :: Note where
  "short_note = \<lparr> note_id = [], note_createTime = 0, userPlayed = True,
     instrumentName = ''piano'', velocity = 1 / 2, pitch = 60, note_start = 0,
     note_end = 1 / 2, cx = ''20%'', cy = 0, note_tail = None \<rparr>"

definition other_short_note :: Note where
  "other_short_note = \<lparr> note_id = [], note_createTime = 0, userPlayed = True,
     instrumentName = ''piano'', velocity = 1 / 2, pitch = 61, note_start = 0,
     note_end = 1 / 2, cx = ''40%'', cy = 0, note_tail = None \<rparr>"

definition held_note :: Note where
  "held_note = \<lparr> note_id = [], note_createTime = 0, userPlayed = True,
     instrumentName = ''violin'', velocity = 1 / 2, pitch = 61, note_start = 0, note_end = 2,
     cx = ''40%'', cy = 0, note_tail = None \<rparr>"

definition ambient_note1 :: Note where
  "ambient_note1 = \<lparr> note_id = [], note_createTime = 0, userPlayed = False,
     instrumentName = ''piano'', velocity = 1, pitch = 60, note_start = 0,
     note_end = 1 / 2, cx = ''20%'', cy = 0, note_tail = None \<rparr>"

definition ambient_note2 :: Note where
  "ambient_note2 = \<lparr> note_id = [], note_createTime = 0, userPlayed = False,
     instrumentName = ''flute'', velocity = 1, pitch = 65, note_start = 0,
     note_end = 1 / 2, cx = ''40%'', cy = 0, note_tail = None \<rparr>"

text \<open>The ticks \<open>a\<close>, ..., \<open>b - 1\<close> of the game clock, which counts from 0.\<close>

definition clock :: "nat \<Rightarrow> nat \<Rightarrow> Event list" where
  "clock a b = map (\<lambda>i. Tick (real i)) [a..<b]"

text \<open>
  Two sustained notes whose chart times are not doubles: the parser reads them as the
  nearest doubles. And the events of an early release: the first of the two is spawned,
  falls for a hundred ticks, is pressed on the line and released after the tick 138.
\<close>

definition edge_note :: Note where
  "edge_note = \<lparr> note_id = [], note_createTime = 0, userPlayed = True,
     instrumentName = ''violin'', velocity = 1 / 2, pitch = 61, note_start = 0,
     note_end = dbl (101 / 100), cx = ''40%'', cy = 0, note_tail = None \<rparr>"

definition long_note :: Note where
  "long_note = \<lparr> note_id = [], note_createTime = 0, userPlayed = True,
     instrumentName = ''violin'', velocity = 1 / 2, pitch = 61, note_start = 0,
     note_end = dbl (102 / 100), cx = ''40%'', cy = 0, note_tail = None \<rparr>"

definition early_release :: "Event list" where
  "early_release =
     MusicNote edge_note # clock 0 100 @ [KeyPressEvent 1] @ clock 100 138 @ [Tick 138]"

text \<open>
  A short note in lane 0 and a second note in lane 1 are spawned together and fall for a
  hundred ticks; the first is hit on the line, the second is left alone; one more tick
  passes.
\<close>

definition hit_then_wait :: "Note \<Rightarrow> Event list" where
  "hit_then_wait second =
     MusicNote short_note # MusicNote second # clock 0 100 @ [KeyPressEvent 0, Tick 100]"

section \<open>Rounding to a double\<close>

text \<open>The rounding moves a number by at most the \<open>2^53\<close>-th part of it.\<close>

lemma pow2_powr: "pow2 e = 2 powr (real_of_int e)"
proof (cases "0 \<le> e")
  case True
  have "(2::real) powr (real (nat e)) = 2 ^ nat e" by (simp add: powr_realpow)
  then show ?thesis using True by (simp add: pow2_def)
next
  case False
  have a: "(2::real) powr (real (nat (- e))) = 2 ^ nat (- e)" by (simp add: powr_realpow)
  have b: "real_of_int e = - real (nat (- e))" using False by simp
  have "(2::real) powr (- real (nat (- e))) = inverse (2 powr (real (nat (- e))))"
    by (rule powr_minus)
  then have "(2::real) powr (real_of_int e) = inverse (2 ^ nat (- e))"
    unfolding a b[symmetric] .
  then show ?thesis using False by (simp add: pow2_def inverse_eq_divide)
qed

lemma pow2_pos: "0 < pow2 e"
  by (simp add: pow2_powr)

lemma pow2_minus_52: "pow2 (k - 52) = pow2 k / 2 ^ 52"
proof -
  have "(2::real) powr (real_of_int (k - 52)) = 2 powr (real_of_int k) / 2 powr 52"
    by (simp add: powr_diff)
  moreover have "(2::real) powr 52 = 2 ^ 52" by (rule powr_numeral) simp
  ultimately show ?thesis by (simp only: pow2_powr)
qed

lemma binade_le: assumes "x \<noteq> 0" shows "pow2 (binade x) \<le> \<bar>x\<bar>"
proof (cases "1 \<le> \<bar>x\<bar>")
  case True
  define n where "n = \<lfloor>\<bar>x\<bar>\<rfloor>"
  have npos: "0 < n" using True by (simp add: n_def)
  then have b: "1 \<le> bitlen n" using bitlen_eq_zero_iff[of n] bitlen_nonneg[of n] by linarith
  from bitlen_bounds[OF npos] have "2 ^ nat (bitlen n - 1) \<le> n" by simp
  then have "real_of_int (2 ^ nat (bitlen n - 1)) \<le> of_int n"
    by (simp only: of_int_le_iff)
  then have "(2::real) ^ nat (bitlen n - 1) \<le> of_int n" by simp
  also have "\<dots> \<le> \<bar>x\<bar>" by (simp add: n_def)
  finally show ?thesis using True b by (simp add: binade_def pow2_def n_def)
next
  case False
  define y where "y = 1 / \<bar>x\<bar>"
  define n where "n = \<lceil>y\<rceil> - 1"
  have xpos: "0 < \<bar>x\<bar>" using assms by simp
  have y1: "1 < y" using False xpos by (simp add: y_def)
  then have "2 \<le> \<lceil>y\<rceil>" by linarith
  then have npos: "0 < n" by (simp add: n_def)
  then have b: "1 \<le> bitlen n" using bitlen_eq_zero_iff[of n] bitlen_nonneg[of n] by linarith
  from bitlen_bounds[OF npos] have "n < 2 ^ nat (bitlen n)" by simp
  then have "\<lceil>y\<rceil> \<le> 2 ^ nat (bitlen n)" by (simp add: n_def)
  then have "real_of_int \<lceil>y\<rceil> \<le> real_of_int (2 ^ nat (bitlen n))"
    by (simp only: of_int_le_iff)
  then have "real_of_int \<lceil>y\<rceil> \<le> 2 ^ nat (bitlen n)" by simp
  then have "y \<le> 2 ^ nat (bitlen n)" by linarith
  then have "1 / 2 ^ nat (bitlen n) \<le> \<bar>x\<bar>"
    using xpos by (simp add: y_def field_simps)
  then show ?thesis using False b by (simp add: binade_def pow2_def n_def y_def)
qed

lemma rne_err: "\<bar>of_int (rne r) - r\<bar> \<le> 1 / 2"
proof -
  have "of_int \<lfloor>r\<rfloor> \<le> r" "r < of_int \<lfloor>r\<rfloor> + 1" by linarith+
  then show ?thesis by (auto simp: rne_def Let_def)
qed

lemma dbl_err: "\<bar>dbl x - x\<bar> \<le> \<bar>x\<bar> / 2 ^ 53"
proof (cases "x = 0")
  case True
  then show ?thesis by (simp add: dbl_def)
next
  case False
  define u where "u = pow2 (binade x - 52)"
  have upos: "0 < u" by (simp add: u_def pow2_pos)
  have "dbl x - x = u * (of_int (rne (x / u)) - x / u)"
    using False upos by (simp add: dbl_def u_def algebra_simps)
  then have "\<bar>dbl x - x\<bar> = u * \<bar>of_int (rne (x / u)) - x / u\<bar>"
    using upos by (simp add: abs_mult)
  also have "\<dots> \<le> u * (1 / 2)"
    using upos rne_err[of "x / u"] by (intro mult_left_mono) simp_all
  also have "u = pow2 (binade x) / 2 ^ 52" by (simp add: u_def pow2_minus_52)
  also have "pow2 (binade x) / 2 ^ 52 * (1 / 2) \<le> \<bar>x\<bar> / 2 ^ 52 * (1 / 2)"
    using binade_le[OF False] by (simp add: divide_right_mono)
  finally show ?thesis by simp
qed

text \<open>Rounding on the numbers the examples need, by computation.\<close>

lemmas dbl_eval = dbl_def binade_def pow2_def rne_def Let_def compute_bitlen

lemma SECOND_PER_TICK_value: "SECOND_PER_TICK = 5764607523034235 / 288230376151711744"
  by (simp add: SECOND_PER_TICK_def dbl_eval)

lemma dbl_half: "dbl (1 / 2) = 1 / 2"
  by (simp add: dbl_eval)

lemma dbl_2: "dbl 2 = 2"
  by (simp add: dbl_eval)

lemma dbl_10: "dbl 10 = 10"
  by (simp add: dbl_eval)

lemma note_limit: "dbl (dbl (NOTE_TRAVEL_DURATION / 1000) / SECOND_PER_TICK) = 100"
  by (simp add: NOTE_TRAVEL_DURATION_def SECOND_PER_TICK_value dbl_eval)

lemma tail_limit_2: "dbl (10 / SECOND_PER_TICK) = 500"
  by (simp add: SECOND_PER_TICK_value dbl_eval)

lemma tailLength_2: "tailLength 2 = 350"
  by (simp add: tailLength_def NOTE_PATH_LENGTH_def NOTE_TRAVEL_DURATION_def dbl_eval)

lemma dbl_101: "dbl (101 / 100) = 4548635623644201 / 4503599627370496"
  by (simp add: dbl_eval)

lemma dbl_177: "dbl (177 / 100) = 3985685670222889 / 2251799813685248"
  by (simp add: dbl_eval)

lemma dbl_102: "dbl (102 / 100) = 2296835809958953 / 2251799813685248"
  by (simp add: dbl_eval)

lemma abs_leD: "\<bar>x\<bar> \<le> r \<Longrightarrow> - r \<le> x \<and> x \<le> (r::real)"
  by linarith

lemma dbl_within:
  assumes "\<bar>x\<bar> \<le> m"
  shows "x - m / 2 ^ 53 \<le> dbl x \<and> dbl x \<le> x + m / 2 ^ 53"
proof -
  have "\<bar>dbl x - x\<bar> \<le> \<bar>x\<bar> / 2 ^ 53" by (rule dbl_err)
  also have "\<dots> \<le> m / 2 ^ 53" using assms by (simp add: divide_right_mono)
  finally have "\<bar>dbl x - x\<bar> \<le> m / 2 ^ 53" .
  from abs_leD[OF this] show ?thesis by linarith
qed

section \<open>The constants, evaluated\<close>

lemma isAligned_iff: "isAligned n \<longleftrightarrow> \<bar>cy n - 350\<bar> \<le> 30"
  by (simp add: isAligned_def isAlignedCurried_def NOTE_ALIGNMENT_TOLERANCE_def NOTE_PATH_LENGTH_def)

lemma noteExpired_iff: "noteExpired elapsed n \<longleftrightarrow> elapsed - note_createTime n > 100"
  by (simp add: noteExpired_def note_limit)

lemma movementPerTick_value: "movementPerTick = 7 / 2"
  by (simp add: movementPerTick_def NOTE_PATH_LENGTH_def NOTE_TRAVEL_DURATION_def TICK_RATE_MS_def)

lemma digits_0: "digits 0 = ''0''"
  by code_simp

lemma digits_1: "digits (Suc 0) = ''1''"
  by code_simp

text \<open>The equations that evaluate the reducer on a concrete state.\<close>

lemmas game_defs = run_def clock_def hit_then_wait_def held_note_def short_note_def
  other_short_note_def initialState_def createNote_def createTail_def tick_def
  moveNote_def moveTail_def noteExpired_iff tailExpired_def movementPerTick_def
  dbl_half dbl_2 dbl_10 tail_limit_2 tailLength_2
  missedNotes_def assignColumn_def js_rem_def trunc_def pick4_def digits_0 digits_1 Let_def
  isAligned_def isAlignedCurried_def calculateMultiplierAndScore_def Math_round_def
  NOTE_PATH_LENGTH_def NOTE_TRAVEL_DURATION_def TICK_RATE_MS_def
  TAIL_WIDTH_def NOTE_ALIGNMENT_TOLERANCE_def

section \<open>The transient sequences\<close>

lemma reduceState_backgroundNote:
  "backgroundNote (reduceState s e) = (case e of Tick el \<Rightarrow> [] | _ \<Rightarrow> backgroundNote s)"
  by (cases e) (simp_all add: tick_def Let_def split: option.splits)

lemma foldl_backgroundNote:
  "backgroundNote s = [] \<Longrightarrow> backgroundNote (foldl reduceState s es) = []"
proof (induction es arbitrary: s)
  case Nil
  then show ?case by simp
next
  case (Cons e es)
  have "backgroundNote (reduceState s e) = []"
    using Cons.prems by (simp add: reduceState_backgroundNote split: Event.splits)
  then show ?case using Cons.IH by simp
qed

text \<open>
  C10. \<^verbatim>\<open>backgroundNote\<close> is empty in the initial state, a tick resets it to empty, and
  it is empty in every state the reducer reaches, whatever the events.
\<close>

theorem backgroundNote_always_empty:
  "backgroundNote initialState = []
   \<and> backgroundNote (tick s elapsed) = []
   \<and> backgroundNote (run es) = []"
  by (simp add: run_def foldl_backgroundNote initialState_def tick_def Let_def)

text \<open>
  C3, as stated, fails: a background spawn does not extend \<^verbatim>\<open>playNote\<close>. After the
  first hundred ticks the two ambient notes of a chord arrive between two ticks; after
  the second, \<^verbatim>\<open>playNote\<close> holds the second note alone, and the first is gone.
\<close>

theorem background_spawn_overwrites:
  "playNote (run (clock 0 100 @ [BackgroundNote ambient_note1]))
     = [createNote (run (clock 0 100)) False ambient_note1]
   \<and> playNote (reduceState (run (clock 0 100 @ [BackgroundNote ambient_note1]))
        (BackgroundNote ambient_note2))
       = [createNote (run (clock 0 100 @ [BackgroundNote ambient_note1])) False ambient_note2]
   \<and> playNote (reduceState (run (clock 0 100 @ [BackgroundNote ambient_note1]))
        (BackgroundNote ambient_note2))
       \<noteq> playNote (run (clock 0 100 @ [BackgroundNote ambient_note1]))
           @ [createNote (run (clock 0 100 @ [BackgroundNote ambient_note1])) False ambient_note2]"
proof -
  have b: "backgroundNote (foldl reduceState initialState (clock 0 100)) = []"
    by (rule foldl_backgroundNote) (simp add: initialState_def)
  show ?thesis by (simp add: run_def b)
qed

text \<open>
  C3, amended. A background spawn sets \<^verbatim>\<open>playNote\<close> to \<^verbatim>\<open>backgroundNote\<close> extended by
  the new ambient note, which in every state the reducer reaches is the new note alone:
  what \<^verbatim>\<open>playNote\<close> held is dropped. The live notes, the score, the streak and the
  multiplier stay as they were.
\<close>

theorem background_spawn:
  "reduceState s (BackgroundNote n) = s\<lparr> playNote := backgroundNote s @ [createNote s False n] \<rparr>
   \<and> playNote (reduceState (run es) (BackgroundNote n)) = [createNote (run es) False n]
   \<and> live_note (reduceState s (BackgroundNote n)) = live_note s
   \<and> score (reduceState s (BackgroundNote n)) = score s
   \<and> consecutiveHits (reduceState s (BackgroundNote n)) = consecutiveHits s
   \<and> multiplier (reduceState s (BackgroundNote n)) = multiplier s"
  by (simp add: run_def foldl_backgroundNote initialState_def)

section \<open>Lane presses\<close>

text \<open>
  C5. A note is aligned exactly when its \<open>cy\<close> is within 30 of 350. A press in a lane
  with no live note, or whose first live note is not aligned, appends one dummy note to
  \<^verbatim>\<open>randomNotes\<close> and changes nothing else: score, streak, multiplier and the live notes
  stay as they were.
\<close>

theorem key_press_miss:
  "(isAligned n \<longleftrightarrow> \<bar>cy n - 350\<bar> \<le> 30)
   \<and> ((\<forall>a \<in> set (live_note s). assignColumn (pitch a) \<noteq> column)
        \<longrightarrow> reduceState s (KeyPressEvent column) = s\<lparr> randomNotes := randomNotes s @ [dummyNote] \<rparr>)
   \<and> (find (\<lambda>a. assignColumn (pitch a) = column) (live_note s) = Some n \<and> \<not> isAligned n
        \<longrightarrow> reduceState s (KeyPressEvent column) = s\<lparr> randomNotes := randomNotes s @ [dummyNote] \<rparr>)"
proof (intro conjI impI)
  show "isAligned n \<longleftrightarrow> \<bar>cy n - 350\<bar> \<le> 30" by (rule isAligned_iff)
next
  assume "\<forall>a \<in> set (live_note s). assignColumn (pitch a) \<noteq> column"
  then have "find (\<lambda>a. assignColumn (pitch a) = column) (live_note s) = None"
    by (simp add: find_None_iff)
  then show "reduceState s (KeyPressEvent column) = s\<lparr> randomNotes := randomNotes s @ [dummyNote] \<rparr>"
    by simp
next
  assume "find (\<lambda>a. assignColumn (pitch a) = column) (live_note s) = Some n \<and> \<not> isAligned n"
  then show "reduceState s (KeyPressEvent column) = s\<lparr> randomNotes := randomNotes s @ [dummyNote] \<rparr>"
    by simp
qed

text \<open>
  The witness: a press on lane 0 in the initial state (no note at all), and right after a
  note of lane 0 was spawned (the note is at the top, far from the line).
\<close>

theorem key_press_miss_witness:
  "reduceState initialState (KeyPressEvent 0)
     = initialState\<lparr> randomNotes := [dummyNote] \<rparr>
   \<and> score (reduceState initialState (KeyPressEvent 0)) = 0
   \<and> reduceState (run [MusicNote short_note]) (KeyPressEvent 0)
     = (run [MusicNote short_note])\<lparr> randomNotes := [dummyNote] \<rparr>"
proof -
  have e: "\<forall>a \<in> set (live_note initialState). assignColumn (pitch a) \<noteq> 0"
    by (simp add: initialState_def)
  have r: "randomNotes initialState = []" by (simp add: initialState_def)
  have f: "find (\<lambda>a. assignColumn (pitch a) = 0) (live_note (run [MusicNote short_note]))
        = Some (createNote initialState True short_note)
      \<and> \<not> isAligned (createNote initialState True short_note)"
    by code_simp
  have r2: "randomNotes (run [MusicNote short_note]) = []" by code_simp
  show ?thesis
    using key_press_miss[of "createNote initialState True short_note" initialState 0] e r
      key_press_miss[of "createNote initialState True short_note" "run [MusicNote short_note]" 0] f r2
    by (simp add: initialState_def)
qed

section \<open>Ticks\<close>

lemma noteExpired_moveNote: "noteExpired e (moveNote n) = noteExpired e n"
  by (simp add: noteExpired_def moveNote_def)

lemma moveNote_funpow: "(moveNote ^^ k) n = n\<lparr> cy := cy n + 7 / 2 * real k \<rparr>"
  by (induction k) (simp_all add: moveNote_def movementPerTick_value algebra_simps)

lemma live_note_tick:
  "live_note (tick s e) = map moveNote (filter (\<lambda>n. \<not> noteExpired e n) (live_note s))"
  by (simp add: tick_def Let_def)

lemma live_note_ticks:
  "live_note (foldl reduceState s (map Tick es))
     = map (moveNote ^^ length es) (filter (\<lambda>n. \<forall>e \<in> set es. \<not> noteExpired e n) (live_note s))"
proof (induction es arbitrary: s)
  case Nil
  then show ?case by simp
next
  case (Cons e es)
  have "live_note (foldl reduceState s (map Tick (e # es)))
        = live_note (foldl reduceState (tick s e) (map Tick es))" by simp
  also have "\<dots> = map (moveNote ^^ length es)
       (filter (\<lambda>n. \<forall>e \<in> set es. \<not> noteExpired e n)
          (map moveNote (filter (\<lambda>n. \<not> noteExpired e n) (live_note s))))"
    by (simp only: Cons.IH live_note_tick)
  also have "\<dots> = map (moveNote ^^ length es)
       (map moveNote (filter (\<lambda>n. \<forall>e' \<in> set (e # es). \<not> noteExpired e' n) (live_note s)))"
    by (simp add: filter_map comp_def noteExpired_moveNote conj_commute)
  also have "\<dots> = map (moveNote ^^ length (e # es))
       (filter (\<lambda>n. \<forall>e' \<in> set (e # es). \<not> noteExpired e' n) (live_note s))"
    by (simp add: funpow_swap1 comp_def)
  finally show ?case .
qed

text \<open>
  C7. The movement per tick is 350 / (2000 / 20) = 3.5. Over any sequence of ticks, the
  live notes are those that no tick found more than 100 ticks old, in their order, each
  with \<open>cy\<close> advanced by 3.5 per tick and otherwise unchanged; a note a tick finds more
  than 100 ticks old is in \<^verbatim>\<open>exit\<close> after that tick.
\<close>

theorem note_trajectory:
  "movementPerTick = 350 / (2000 / 20)
   \<and> movementPerTick = 7 / 2
   \<and> live_note (foldl reduceState s (map Tick es))
       = map (\<lambda>n. n\<lparr> cy := cy n + 7 / 2 * real (length es) \<rparr>)
           (filter (\<lambda>n. \<forall>e \<in> set es. \<not> e - note_createTime n > 100) (live_note s))
   \<and> (\<forall>n \<in> set (live_note s). elapsed - note_createTime n > 100 \<longrightarrow>
         ExitNote n \<in> set (exit_list (reduceState s (Tick elapsed))))"
proof (intro conjI)
  show "movementPerTick = 350 / (2000 / 20)" "movementPerTick = 7 / 2"
    by (simp_all add: movementPerTick_value)
  show "live_note (foldl reduceState s (map Tick es))
       = map (\<lambda>n. n\<lparr> cy := cy n + 7 / 2 * real (length es) \<rparr>)
           (filter (\<lambda>n. \<forall>e \<in> set es. \<not> e - note_createTime n > 100) (live_note s))"
    by (simp add: live_note_ticks moveNote_funpow noteExpired_iff)
  show "\<forall>n \<in> set (live_note s). elapsed - note_createTime n > 100 \<longrightarrow>
         ExitNote n \<in> set (exit_list (reduceState s (Tick elapsed)))"
    by (auto simp: tick_def Let_def noteExpired_iff)
qed

text \<open>
  The witness: a short note spawned at time 0 is on the line (\<open>cy = 350\<close>) after the ticks
  0 to 99 and is gone after the tick 101.
\<close>

theorem note_trajectory_witness:
  "map cy (live_note (run (MusicNote short_note # clock 0 100))) = [350]
   \<and> live_note (run (MusicNote short_note # clock 0 102)) = []
   \<and> ExitNote (createNote initialState True short_note)
        \<in> set (exit_list (reduceState (run [MusicNote short_note]) (Tick 101)))"
proof -
  let ?s = "run [MusicNote short_note]"
  have r: "run (MusicNote short_note # clock 0 k)
      = foldl reduceState ?s (map Tick (map real [0..<k]))" for k
    by (simp add: run_def clock_def comp_def)
  have n: "live_note ?s = [createNote initialState True short_note]"
    by (simp add: run_def createNote_def short_note_def initialState_def)
  have ct: "note_createTime (createNote initialState True short_note) = 0"
    by (simp add: createNote_def initialState_def)
  have c0: "cy (createNote initialState True short_note) = 0"
    by (simp add: createNote_def)
  have "\<not> (\<forall>i \<in> {0..<102::nat}. real i \<le> 100)"
    by (auto intro!: bexI[of _ 101])
  then have late: "\<not> (\<forall>e \<in> set (map real [0..<102]). \<not> e - 0 > 100)"
    by (simp add: not_less)
  have early: "\<forall>e \<in> set (map real [0..<100]). \<not> e - 0 > 100"
    by auto
  show ?thesis
    using note_trajectory[of ?s "map real [0..<100]" 101] note_trajectory[of ?s "map real [0..<102]" 101]
      early late
    unfolding r n by (simp add: ct c0)
qed

lemma after_hit_short:
  "run (hit_then_wait other_short_note) =
     \<lparr> time = 100, gameEnd = False,
       live_note = [\<lparr> note_id = ''note1'', note_createTime = 0, userPlayed = True,
          instrumentName = ''piano'', velocity = 1 / 2, pitch = 61,
          note_start = 0, note_end = 1 / 2, cx = ''40%'', cy = 707 / 2, note_tail = None \<rparr>],
       live_tail = [], exit_list = [], noteCount = 2, score = 1, playNote = [],
       backgroundNote = [], randomNotes = [], consecutiveHits = 1, multiplier = 1 \<rparr>"
  by (simp add: game_defs upt_rec)

lemma after_hit_held:
  "run (hit_then_wait held_note) =
     \<lparr> time = 100, gameEnd = False,
       live_note = [\<lparr> note_id = ''note1'', note_createTime = 0, userPlayed = True,
          instrumentName = ''violin'', velocity = 1 / 2, pitch = 61,
          note_start = 0, note_end = 2, cx = ''40%'', cy = 707 / 2,
          note_tail = Some \<lparr> tail_id = ''Tail1'', tail_createTime = 0, width = 10,
                height = 350, tail_x = ''75'', tail_y = - 350, duration = 2,
                style = ''fill: red'' \<rparr> \<rparr>],
       live_tail = [\<lparr> tail_id = ''Tail1'', tail_createTime = 0, width = 10,
          height = 693 / 2, tail_x = ''75'', tail_y = 7 / 2, duration = 2,
          style = ''fill: red'' \<rparr>],
       exit_list = [], noteCount = 2, score = 1, playNote = [],
       backgroundNote = [], randomNotes = [], consecutiveHits = 1, multiplier = 1 \<rparr>"
  by (simp add: game_defs upt_rec)

text \<open>
  C4. A tick counts as missed exactly the live notes that are more than 100 ticks old,
  are not in \<^verbatim>\<open>playNote\<close> and have no tail. If there is one, the streak becomes 0 and
  the multiplier 1; if there is none, both stay. Every expired note, with or without a
  tail, is in \<^verbatim>\<open>exit\<close> after the tick, and one with a tail is never counted missed.
\<close>

theorem tick_miss:
  "(noteExpired elapsed n \<longleftrightarrow> elapsed - note_createTime n > 100)
   \<and> set (missedNotes s elapsed)
       = {a \<in> set (live_note s). noteExpired elapsed a \<and> a \<notin> set (playNote s) \<and> note_tail a = None}
   \<and> consecutiveHits (reduceState s (Tick elapsed))
       = (if missedNotes s elapsed \<noteq> [] then 0 else consecutiveHits s)
   \<and> multiplier (reduceState s (Tick elapsed))
       = (if missedNotes s elapsed \<noteq> [] then 1 else multiplier s)
   \<and> (\<forall>a \<in> set (live_note s). noteExpired elapsed a \<longrightarrow>
         ExitNote a \<in> set (exit_list (reduceState s (Tick elapsed)))
         \<and> (note_tail a \<noteq> None \<longrightarrow> a \<notin> set (missedNotes s elapsed)))"
  by (auto simp: noteExpired_iff missedNotes_def tick_def Let_def)

text \<open>
  The witness: after one hit (streak 1), a short note left alone expires at tick 101 and
  resets the streak; a sustained note left alone expires at the same tick, goes to
  \<^verbatim>\<open>exit\<close>, and the streak stays 1.
\<close>

theorem tick_miss_witness:
  "consecutiveHits (run (hit_then_wait other_short_note)) = 1
   \<and> length (missedNotes (run (hit_then_wait other_short_note)) 101) = 1
   \<and> consecutiveHits (reduceState (run (hit_then_wait other_short_note)) (Tick 101)) = 0
   \<and> multiplier (reduceState (run (hit_then_wait other_short_note)) (Tick 101)) = 1
   \<and> consecutiveHits (run (hit_then_wait held_note)) = 1
   \<and> missedNotes (run (hit_then_wait held_note)) 101 = []
   \<and> consecutiveHits (reduceState (run (hit_then_wait held_note)) (Tick 101)) = 1
   \<and> live_note (reduceState (run (hit_then_wait held_note)) (Tick 101)) = []
   \<and> length (exit_list (reduceState (run (hit_then_wait held_note)) (Tick 101))) = 1"
proof -
  have m1: "length (missedNotes (run (hit_then_wait other_short_note)) 101) = 1"
    unfolding after_hit_short by (simp add: missedNotes_def noteExpired_iff)
  have m2: "missedNotes (run (hit_then_wait held_note)) 101 = []"
    unfolding after_hit_held by (simp add: missedNotes_def noteExpired_iff)
  have l: "live_note (reduceState (run (hit_then_wait held_note)) (Tick 101)) = []
    \<and> length (exit_list (reduceState (run (hit_then_wait held_note)) (Tick 101))) = 1"
    unfolding after_hit_held
    by (simp add: tick_def Let_def noteExpired_iff tailExpired_def dbl_10 tail_limit_2)
  have c: "consecutiveHits (run (hit_then_wait other_short_note)) = 1"
     "consecutiveHits (run (hit_then_wait held_note)) = 1"
     "multiplier (run (hit_then_wait other_short_note)) = 1"
    by (simp_all add: after_hit_short after_hit_held)
  have "missedNotes (run (hit_then_wait other_short_note)) 101 \<noteq> []"
    using m1 by auto
  then show ?thesis
    using m1 m2 l c
      tick_miss[of 101 other_short_note "run (hit_then_wait other_short_note)"]
      tick_miss[of 101 held_note "run (hit_then_wait held_note)"]
    by simp
qed

section \<open>Tails\<close>

lemma held_on_line:
  "run (MusicNote held_note # clock 0 100) =
     \<lparr> time = 99, gameEnd = False,
       live_note = [\<lparr> note_id = ''note0'', note_createTime = 0, userPlayed = True,
          instrumentName = ''violin'', velocity = 1 / 2, pitch = 61,
          note_start = 0, note_end = 2, cx = ''40%'', cy = 350,
          note_tail = Some \<lparr> tail_id = ''Tail0'', tail_createTime = 0, width = 10,
                height = 350, tail_x = ''75'', tail_y = - 350, duration = 2,
                style = ''fill: red'' \<rparr> \<rparr>],
       live_tail = [\<lparr> tail_id = ''Tail0'', tail_createTime = 0, width = 10,
          height = 350, tail_x = ''75'', tail_y = 0, duration = 2,
          style = ''fill: red'' \<rparr>],
       exit_list = [], noteCount = 1, score = 0, playNote = [],
       backgroundNote = [], randomNotes = [], consecutiveHits = 0, multiplier = 1 \<rparr>"
  by (simp add: game_defs upt_rec)

lemma held_two_more_ticks:
  "run (MusicNote held_note # clock 0 102)
     = foldl reduceState (run (MusicNote held_note # clock 0 100)) [Tick 100, Tick 101]"
proof -
  have "[0..<102] = [0..<100] @ [100, 101]" by (simp add: upt_rec)
  then show ?thesis by (simp add: run_def clock_def)
qed

text \<open>
  C2, as stated, fails: a tail is not destroyed with its note. A sustained note is
  spawned and falls for a hundred ticks. Pressed on the line, the note leaves the live
  notes and its tail stays in the live tails. Left alone, the note expires at tick 101
  and its tail stays as well.
\<close>

theorem tail_outlives_note:
  "map note_id (live_note (run (MusicNote held_note # clock 0 100))) = [''note0'']
   \<and> map tail_id (live_tail (run (MusicNote held_note # clock 0 100))) = [''Tail0'']
   \<and> live_note (reduceState (run (MusicNote held_note # clock 0 100)) (KeyPressEvent 1)) = []
   \<and> map tail_id (live_tail (reduceState (run (MusicNote held_note # clock 0 100)) (KeyPressEvent 1)))
       = [''Tail0'']
   \<and> live_note (run (MusicNote held_note # clock 0 102)) = []
   \<and> map tail_id (live_tail (run (MusicNote held_note # clock 0 102))) = [''Tail0'']"
  unfolding held_two_more_ticks unfolding held_on_line
  by (simp add: assignColumn_def js_rem_def trunc_def isAligned_iff tick_def Let_def
      noteExpired_iff tailExpired_def dbl_10 tail_limit_2 moveTail_def moveNote_def)

lemma tail_limit_ge:
  assumes "1 \<le> d"
  shows "249 < dbl (dbl (d * 5) / SECOND_PER_TICK)"
proof -
  have c: "SECOND_PER_TICK = 5764607523034235 / 288230376151711744"
    by (rule SECOND_PER_TICK_value)
  have "\<bar>d * 5\<bar> \<le> d * 5" using assms by simp
  from dbl_within[OF this] have "d * 5 - d * 5 / 2 ^ 53 \<le> dbl (d * 5)" by simp
  then have x1: "499 / 100 \<le> dbl (d * 5)" using assms by simp
  define x2 where "x2 = dbl (d * 5) / SECOND_PER_TICK"
  have x2: "2494 / 10 \<le> x2" using x1 unfolding x2_def c by simp
  then have "\<bar>x2\<bar> \<le> x2" by simp
  from dbl_within[OF this] have "x2 - x2 / 2 ^ 53 \<le> dbl x2" by simp
  then have "249 < dbl x2" using x2 by simp
  then show ?thesis by (simp only: x2_def)
qed

lemma tailExpired_moveTail: "tailExpired e (moveTail t) = tailExpired e t"
  by (simp add: tailExpired_def moveTail_def Let_def)

lemma tailExpired_funpow: "tailExpired e ((moveTail ^^ k) t) = tailExpired e t"
  by (induction k) (simp_all add: tailExpired_moveTail)

lemma live_tail_tick:
  "live_tail (tick s e) = map moveTail (filter (\<lambda>t. \<not> tailExpired e t) (live_tail s))"
  by (simp add: tick_def Let_def)

lemma live_tail_ticks:
  "live_tail (foldl reduceState s (map Tick es))
     = map (moveTail ^^ length es) (filter (\<lambda>t. \<forall>e \<in> set es. \<not> tailExpired e t) (live_tail s))"
proof (induction es arbitrary: s)
  case Nil
  then show ?case by simp
next
  case (Cons e es)
  have "live_tail (foldl reduceState s (map Tick (e # es)))
        = live_tail (foldl reduceState (tick s e) (map Tick es))" by simp
  also have "\<dots> = map (moveTail ^^ length es)
       (filter (\<lambda>t. \<forall>e \<in> set es. \<not> tailExpired e t)
          (map moveTail (filter (\<lambda>t. \<not> tailExpired e t) (live_tail s))))"
    by (simp only: Cons.IH live_tail_tick)
  also have "\<dots> = map (moveTail ^^ length es)
       (map moveTail (filter (\<lambda>t. \<forall>e' \<in> set (e # es). \<not> tailExpired e' t) (live_tail s)))"
    by (simp add: filter_map comp_def tailExpired_moveTail conj_commute)
  also have "\<dots> = map (moveTail ^^ length (e # es))
       (filter (\<lambda>t. \<forall>e' \<in> set (e # es). \<not> tailExpired e' t) (live_tail s))"
    by (simp add: funpow_swap1 comp_def)
  finally show ?case .
qed

lemma long_note_tail:
  "live_tail (run [MusicNote long_note]) = [createTail initialState long_note]
   \<and> duration (createTail initialState long_note) = 2296835809958953 / 2251799813685248"
  by (simp add: run_def createNote_def createTail_def long_note_def initialState_def Let_def
      dbl_102 dbl_eval)

lemma long_note_limit:
  "dbl (dbl (2296835809958953 / 2251799813685248 * 5) / SECOND_PER_TICK)
     = 8972014882652159 / 35184372088832"
  by (simp add: SECOND_PER_TICK_value dbl_eval)

lemma long_note_expiry:
  "tailExpired e ((moveTail ^^ k) (createTail initialState long_note))
     \<longleftrightarrow> e > 8972014882652159 / 35184372088832"
proof -
  have c: "tail_createTime (createTail initialState long_note) = 0"
    by (simp add: createTail_def initialState_def Let_def)
  have d: "duration (createTail initialState long_note) = 2296835809958953 / 2251799813685248"
    by (simp add: long_note_tail)
  have "tailExpired e (createTail initialState long_note)
      \<longleftrightarrow> e - 0 > dbl (dbl (2296835809958953 / 2251799813685248 * 5) / SECOND_PER_TICK)"
    by (simp only: tailExpired_def c d)
  then show ?thesis by (simp only: tailExpired_funpow long_note_limit) simp
qed

lemma long_note_falls:
  "live_tail (run (MusicNote long_note # clock 0 255))
     = [(moveTail ^^ 255) (createTail initialState long_note)]"
proof -
  let ?s = "run [MusicNote long_note]"
  have r: "run (MusicNote long_note # clock 0 255)
      = foldl reduceState ?s (map Tick (map real [0..<255]))"
    by (simp add: run_def clock_def comp_def)
  have a: "\<forall>e \<in> set (map real [0..<255]). \<not> tailExpired e (createTail initialState long_note)"
    using long_note_expiry[of _ 0] by auto
  have "live_tail (foldl reduceState ?s (map Tick (map real [0..<255])))
      = map (moveTail ^^ length (map real [0..<255]))
          (filter (\<lambda>t. \<forall>e \<in> set (map real [0..<255]). \<not> tailExpired e t) (live_tail ?s))"
    by (rule live_tail_ticks)
  also have "\<dots> = [(moveTail ^^ 255) (createTail initialState long_note)]"
    using a by (simp add: long_note_tail)
  finally show ?thesis unfolding r .
qed

text \<open>
  C2, amended. The live tails change on a player spawn (the tail of the new note is
  appended) and on a tick, and on no other event. A tick removes the tails older than
  \<open>(duration * 5) / 0.02\<close> ticks, the limit being what the doubles give, and moves the
  others. A successful press on a note with a tail removes the note and leaves the live
  tails as they were. The limit of a tail created with its note is above 249 ticks:
  whenever such a tail has passed its limit, the note has passed its limit of 100 ticks,
  so the tail leaves no earlier than its note, and by its own rule only.
\<close>

theorem tail_lifecycle:
  "live_tail (reduceState s e) =
     (case e of
        MusicNote m \<Rightarrow>
          (if dbl (note_end m - note_start m) \<ge> 1 then live_tail s @ [createTail s m]
           else live_tail s)
      | Tick elapsed \<Rightarrow>
          map moveTail
            (filter (\<lambda>t. \<not> elapsed - tail_createTime t
                            > dbl (dbl (duration t * 5) / dbl (2 / 100))) (live_tail s))
      | _ \<Rightarrow> live_tail s)
   \<and> (find (\<lambda>a. assignColumn (pitch a) = column) (live_note s) = Some n
        \<and> isAligned n \<and> note_tail n \<noteq> None \<longrightarrow>
          n \<notin> set (live_note (reduceState s (KeyPressEvent column)))
          \<and> live_tail (reduceState s (KeyPressEvent column)) = live_tail s)
   \<and> (note_tail (createNote s True m') = Some t \<longrightarrow>
          249 < dbl (dbl (duration t * 5) / dbl (2 / 100))
          \<and> (el - tail_createTime t > dbl (dbl (duration t * 5) / dbl (2 / 100)) \<longrightarrow>
               el - note_createTime (createNote s True m') > 100))"
proof (intro conjI impI)
  show "live_tail (reduceState s e) =
     (case e of
        MusicNote m \<Rightarrow>
          (if dbl (note_end m - note_start m) \<ge> 1 then live_tail s @ [createTail s m]
           else live_tail s)
      | Tick elapsed \<Rightarrow>
          map moveTail
            (filter (\<lambda>t. \<not> elapsed - tail_createTime t
                            > dbl (dbl (duration t * 5) / dbl (2 / 100))) (live_tail s))
      | _ \<Rightarrow> live_tail s)"
    by (cases e)
      (auto simp: Let_def tick_def tailExpired_def SECOND_PER_TICK_def createNote_def
        split: option.splits)
next
  assume a: "find (\<lambda>a. assignColumn (pitch a) = column) (live_note s) = Some n
        \<and> isAligned n \<and> note_tail n \<noteq> None"
  then show "n \<notin> set (live_note (reduceState s (KeyPressEvent column)))"
    "live_tail (reduceState s (KeyPressEvent column)) = live_tail s"
    by auto
next
  assume a: "note_tail (createNote s True m') = Some t"
  then have d: "1 \<le> duration t" "tail_createTime t = time s"
    by (auto simp: createNote_def createTail_def Let_def split: if_splits)
  from tail_limit_ge[OF d(1)]
  show l: "249 < dbl (dbl (duration t * 5) / dbl (2 / 100))"
    by (simp only: SECOND_PER_TICK_def)
  assume "el - tail_createTime t > dbl (dbl (duration t * 5) / dbl (2 / 100))"
  moreover have "note_createTime (createNote s True m') = time s" by (simp add: createNote_def)
  ultimately show "el - note_createTime (createNote s True m') > 100"
    using l d by simp
qed

text \<open>
  The witness: the press on the sustained note on the line; the tail of that note at tick
  501; and a tail of duration 1.02, whose limit in doubles is just below 255: it is live
  after the tick 254 and removed by the tick 255, where 250 times the duration is not
  exceeded.
\<close>

theorem tail_lifecycle_witness:
  "live_tail (reduceState (run (MusicNote held_note # clock 0 100)) (KeyPressEvent 1))
     = live_tail (run (MusicNote held_note # clock 0 100))
   \<and> length (live_tail (run (MusicNote held_note # clock 0 100))) = 1
   \<and> live_note (reduceState (run (MusicNote held_note # clock 0 100)) (KeyPressEvent 1)) = []
   \<and> 501 - note_createTime (createNote initialState True held_note) > (100::real)
   \<and> length (live_tail (run (MusicNote long_note # clock 0 255))) = 1
   \<and> live_tail (reduceState (run (MusicNote long_note # clock 0 255)) (Tick 255)) = []
   \<and> 255 \<le> 250 * duration (createTail initialState long_note)"
proof -
  let ?s = "run (MusicNote held_note # clock 0 100)"
  let ?n = "\<lparr> note_id = ''note0'', note_createTime = 0, userPlayed = True,
          instrumentName = ''violin'', velocity = 1 / 2, pitch = 61,
          note_start = 0, note_end = 2, cx = ''40%'', cy = 350,
          note_tail = Some \<lparr> tail_id = ''Tail0'', tail_createTime = 0, width = 10,
                height = 350, tail_x = ''75'', tail_y = - 350, duration = 2,
                style = ''fill: red'' \<rparr> \<rparr>"
  have f: "find (\<lambda>a. assignColumn (pitch a) = 1) (live_note ?s) = Some ?n
      \<and> isAligned ?n \<and> note_tail ?n \<noteq> None"
    unfolding held_on_line by (simp add: assignColumn_def js_rem_def trunc_def isAligned_iff)
  have l: "live_note ?s = [?n]" "length (live_tail ?s) = 1"
    unfolding held_on_line by simp_all
  have t: "note_tail (createNote initialState True held_note)
        = Some (createTail initialState held_note)"
    "tailExpired 501 (createTail initialState held_note)"
    by (simp_all add: createNote_def createTail_def tailExpired_def held_note_def
        initialState_def Let_def dbl_2 dbl_10 tail_limit_2)
  have k: "live_tail (reduceState (run (MusicNote long_note # clock 0 255)) (Tick 255)) = []"
    using tail_lifecycle[where s = "run (MusicNote long_note # clock 0 255)" and e = "Tick 255",
        folded SECOND_PER_TICK_def, folded tailExpired_def]
    by (simp add: long_note_falls long_note_expiry)
  have d: "255 \<le> 250 * duration (createTail initialState long_note)"
    by (simp add: long_note_tail)
  from tail_lifecycle[where s = ?s and column = 1 and n = ?n]
    tail_lifecycle[where s = initialState and m' = held_note
      and t = "createTail initialState held_note" and el = 501,
      folded SECOND_PER_TICK_def, folded tailExpired_def] f t l k d
  show ?thesis by (simp add: long_note_falls)
qed

section \<open>The score\<close>

lemma Math_round_round: "Math_round v = of_int (round v)"
  by (simp add: Math_round_def round_def)

lemma Math_round_of_int: "Math_round (of_int z) = of_int z"
  unfolding Math_round_def by (simp add: floor_unique)

lemma js_rem_real_nat: "js_rem (real a) 10 = real (a mod 10)"
proof -
  have tr: "trunc (real a / 10) = int (a div 10)"
    using floor_divide_of_nat_eq[of a 10] by (simp add: trunc_def)
  have "real (10 * (a div 10) + a mod 10) = real a" by simp
  then have "10 * real (a div 10) + real (a mod 10) = real a"
    by (simp only: of_nat_add of_nat_mult of_nat_numeral)
  then show ?thesis unfolding js_rem_def tr by simp
qed

lemma is_hit_fields:
  assumes "is_hit s e"
  shows "consecutiveHits (reduceState s e) = newStreak (calculateMultiplierAndScore s)
     \<and> multiplier (reduceState s e) = roundedMultiplier (calculateMultiplierAndScore s)
     \<and> score (reduceState s e) = roundedScore (calculateMultiplierAndScore s)"
  using assms by (cases e) (auto simp: Let_def split: option.splits)

lemma neutral_fields:
  assumes "\<not> is_hit s e" "\<not> is_miss s e"
  shows "consecutiveHits (reduceState s e) = consecutiveHits s
     \<and> multiplier (reduceState s e) = multiplier s
     \<and> score (reduceState s e) = score s"
  using assms by (cases e) (auto simp: Let_def tick_def split: option.splits)

lemma step_multiplier:
  "Math_round ((1 + 2 / 10 * real j) * 10) / 10 = 1 + 2 / 10 * real j"
proof -
  have "(1 + 2 / 10 * real j) * 10 = of_int (10 + 2 * int j)" by simp
  then show ?thesis by (simp only: Math_round_of_int) simp
qed

lemma hit_step:
  assumes "is_hit s e" "consecutiveHits s = real k"
    "multiplier s = 1 + 2 / 10 * real (k div 10)"
  shows "consecutiveHits (reduceState s e) = real (Suc k)
     \<and> multiplier (reduceState s e) = 1 + 2 / 10 * real (Suc k div 10)"
proof -
  have st: "consecutiveHits s + 1 = real (Suc k)" using assms(2) by simp
  have rm: "js_rem (consecutiveHits s + 1) 10 = 0 \<longleftrightarrow> Suc k mod 10 = 0"
    unfolding st js_rem_real_nat by simp
  have "roundedMultiplier (calculateMultiplierAndScore s) = 1 + 2 / 10 * real (Suc k div 10)"
  proof (cases "Suc k mod 10 = 0")
    case True
    then have d: "Suc k div 10 = Suc (k div 10)" by (simp add: div_Suc)
    have "multiplier s + 2 / 10 = 1 + 2 / 10 * real (Suc (k div 10))"
      using assms(3) by (simp add: field_simps)
    then show ?thesis using True rm step_multiplier[of "Suc (k div 10)"]
      by (simp add: calculateMultiplierAndScore_def Let_def d)
  next
    case False
    then have d: "Suc k div 10 = k div 10" by (simp add: div_Suc)
    show ?thesis using False rm step_multiplier[of "k div 10"] assms(3)
      by (simp add: calculateMultiplierAndScore_def Let_def d)
  qed
  moreover have "newStreak (calculateMultiplierAndScore s) = real (Suc k)"
    using st by (simp add: calculateMultiplierAndScore_def Let_def)
  ultimately show ?thesis using is_hit_fields[OF assms(1)] by simp
qed

lemma no_miss_run:
  assumes "no_miss s es" "consecutiveHits s = real k"
    "multiplier s = 1 + 2 / 10 * real (k div 10)"
  shows "consecutiveHits (foldl reduceState s es) = real (k + count_hits s es)
     \<and> multiplier (foldl reduceState s es) = 1 + 2 / 10 * real ((k + count_hits s es) div 10)"
  using assms
proof (induction es arbitrary: s k)
  case Nil
  then show ?case by simp
next
  case (Cons e es)
  from Cons.prems(1) have nm: "\<not> is_miss s e" and rest: "no_miss (reduceState s e) es"
    by simp_all
  show ?case
  proof (cases "is_hit s e")
    case True
    from hit_step[OF True Cons.prems(2,3)] Cons.IH[OF rest, of "Suc k"]
    show ?thesis using True by simp
  next
    case False
    from neutral_fields[OF False nm] Cons.prems(2,3) Cons.IH[OF rest, of k]
    show ?thesis using False by simp
  qed
qed

text \<open>
  C1. The scoring update gives the streak plus one; the multiplier, raised by 0.2 when
  the new streak is a multiple of 10, rounded to one decimal; and the score plus that
  multiplier, rounded to one decimal. Both scoring paths store these three results.
  Starting from streak 0 and multiplier 1, over any events with no miss, the streak is
  the number of hits and the multiplier is 1 plus 0.2 for every ten hits: 1.2 from the
  tenth hit, 1.4 from the twentieth.
\<close>

theorem scoring_update:
  "newStreak (calculateMultiplierAndScore s) = consecutiveHits s + 1
   \<and> roundedMultiplier (calculateMultiplierAndScore s)
       = round_1dp (if js_rem (consecutiveHits s + 1) 10 = 0
                    then multiplier s + 2 / 10 else multiplier s)
   \<and> roundedScore (calculateMultiplierAndScore s)
       = round_1dp (score s + 1 * roundedMultiplier (calculateMultiplierAndScore s))
   \<and> (is_hit s e \<longrightarrow>
        consecutiveHits (reduceState s e) = newStreak (calculateMultiplierAndScore s)
        \<and> multiplier (reduceState s e) = roundedMultiplier (calculateMultiplierAndScore s)
        \<and> score (reduceState s e) = roundedScore (calculateMultiplierAndScore s))
   \<and> (consecutiveHits s = 0 \<and> multiplier s = 1 \<and> no_miss s es \<longrightarrow>
        consecutiveHits (foldl reduceState s es) = real (count_hits s es)
        \<and> multiplier (foldl reduceState s es) = 1 + 2 / 10 * real (count_hits s es div 10))"
proof (intro conjI impI)
  show "newStreak (calculateMultiplierAndScore s) = consecutiveHits s + 1"
    by (simp add: calculateMultiplierAndScore_def Let_def)
  show "roundedMultiplier (calculateMultiplierAndScore s)
       = round_1dp (if js_rem (consecutiveHits s + 1) 10 = 0
                    then multiplier s + 2 / 10 else multiplier s)"
    by (simp add: calculateMultiplierAndScore_def Let_def round_1dp_def Math_round_round)
  show "roundedScore (calculateMultiplierAndScore s)
       = round_1dp (score s + 1 * roundedMultiplier (calculateMultiplierAndScore s))"
    by (simp add: calculateMultiplierAndScore_def Let_def round_1dp_def Math_round_round)
next
  assume "is_hit s e"
  from is_hit_fields[OF this]
  show "consecutiveHits (reduceState s e) = newStreak (calculateMultiplierAndScore s)"
    "multiplier (reduceState s e) = roundedMultiplier (calculateMultiplierAndScore s)"
    "score (reduceState s e) = roundedScore (calculateMultiplierAndScore s)"
    by simp_all
next
  assume a: "consecutiveHits s = 0 \<and> multiplier s = 1 \<and> no_miss s es"
  from a no_miss_run[of s es 0]
  show "consecutiveHits (foldl reduceState s es) = real (count_hits s es)"
    "multiplier (foldl reduceState s es) = 1 + 2 / 10 * real (count_hits s es div 10)"
    by simp_all
qed

lemma releases_aligned:
  "isTailAlign s t \<Longrightarrow>
     no_miss s (replicate k (EndTail t)) \<and> count_hits s (replicate k (EndTail t)) = k"
proof (induction k arbitrary: s)
  case 0
  then show ?case by simp
next
  case (Suc k)
  have "isTailAlign (reduceState s (EndTail t)) t"
    using Suc.prems by (simp add: isTailAlign_def Let_def)
  from Suc.IH[OF this] Suc.prems show ?case by simp
qed

lemma after_200_ticks:
  "run (clock 0 201) = initialState\<lparr> time := 200 \<rparr>"
  by (simp add: game_defs upt_rec)

text \<open>
  The witness: aligned tail releases after the tick 200. The multiplier is 1 after nine,
  1.2 after ten and 1.4 after twenty.
\<close>

theorem scoring_update_witness:
  "multiplier (foldl reduceState (run (clock 0 201)) (replicate 9 (EndTail 2))) = 1
   \<and> multiplier (foldl reduceState (run (clock 0 201)) (replicate 10 (EndTail 2))) = 12 / 10
   \<and> multiplier (foldl reduceState (run (clock 0 201)) (replicate 20 (EndTail 2))) = 14 / 10
   \<and> consecutiveHits (foldl reduceState (run (clock 0 201)) (replicate 20 (EndTail 2))) = 20
   \<and> score (reduceState (run (clock 0 201)) (EndTail 2)) = 1"
proof -
  have s: "consecutiveHits (run (clock 0 201)) = 0 \<and> multiplier (run (clock 0 201)) = 1"
    by (simp add: after_200_ticks initialState_def)
  have al: "isTailAlign (run (clock 0 201)) 2"
    by (simp add: after_200_ticks isTailAlign_def SECOND_PER_TICK_value NOTE_TRAVEL_DURATION_def
        dbl_eval)
  have h: "is_hit (run (clock 0 201)) (EndTail 2)" using al by simp
  have sc: "roundedScore (calculateMultiplierAndScore (run (clock 0 201))) = 1"
    by (simp add: after_200_ticks initialState_def calculateMultiplierAndScore_def Let_def
        js_rem_def trunc_def Math_round_def)
  show ?thesis
    using s h sc releases_aligned[OF al, of 9] releases_aligned[OF al, of 10]
      releases_aligned[OF al, of 20]
      scoring_update[of "run (clock 0 201)" "EndTail 2" "replicate 9 (EndTail 2)"]
      scoring_update[of "run (clock 0 201)" "EndTail 2" "replicate 10 (EndTail 2)"]
      scoring_update[of "run (clock 0 201)" "EndTail 2" "replicate 20 (EndTail 2)"]
    by simp
qed

section \<open>Tail releases\<close>

lemma time_after_tick: "time (foldl reduceState s (es @ [Tick e])) = e"
  by (simp add: tick_def Let_def)

lemma time_early_release: "time (run early_release) = 138"
proof -
  have "early_release
      = (MusicNote edge_note # clock 0 100 @ [KeyPressEvent 1] @ clock 100 138) @ [Tick 138]"
    by (simp add: early_release_def)
  then have "time (run early_release)
      = time (foldl reduceState initialState
          ((MusicNote edge_note # clock 0 100 @ [KeyPressEvent 1] @ clock 100 138) @ [Tick 138]))"
    by (simp only: run_def)
  then show ?thesis by (simp only: time_after_tick)
qed

lemma time_clock: "time (run (clock 0 (Suc k))) = real k"
  by (simp add: run_def clock_def tick_def Let_def)

lemma aligned_138: "isTailAlign (run early_release) (dbl (101 / 100))"
  by (simp add: isTailAlign_def time_early_release SECOND_PER_TICK_value NOTE_TRAVEL_DURATION_def
      dbl_101 dbl_eval)

lemma misaligned_201: "\<not> isTailAlign (run (clock 0 202)) (dbl (177 / 100))"
proof -
  have "time (run (clock 0 202)) = 201" using time_clock[of 201] by simp
  then show ?thesis
    by (simp add: isTailAlign_def SECOND_PER_TICK_value NOTE_TRAVEL_DURATION_def
      dbl_177 dbl_eval)
qed

text \<open>
  C6, as stated, fails at the edge of the window, where the deviation the code computes in
  doubles and the exact deviation fall on different sides of 0.25. A release with end
  time 1.01 after the tick 138 has an exact deviation above 0.25, and it scores. A
  release with end time 1.77 after the tick 201 has an exact deviation within 0.25, and
  it resets the streak.
\<close>

theorem tail_release_at_the_edge:
  "1 / 4 < \<bar>138 * (2 / 100) - dbl (101 / 100) - 2\<bar>
   \<and> time (run early_release) = 138
   \<and> consecutiveHits (reduceState (run early_release) (EndTail (dbl (101 / 100))))
       = consecutiveHits (run early_release) + 1
   \<and> \<bar>201 * (2 / 100) - dbl (177 / 100) - 2\<bar> \<le> 1 / 4
   \<and> time (run (clock 0 202)) = 201
   \<and> reduceState (run (clock 0 202)) (EndTail (dbl (177 / 100)))
       = (run (clock 0 202))\<lparr> consecutiveHits := 0, multiplier := 1 \<rparr>"
proof -
  have a: "1 / 4 < \<bar>138 * (2 / 100) - dbl (101 / 100) - 2\<bar>"
    "\<bar>201 * (2 / 100) - dbl (177 / 100) - 2\<bar> \<le> 1 / 4"
    by (simp_all add: dbl_101 dbl_177)
  have t: "time (run (clock 0 202)) = 201" using time_clock[of 201] by simp
  have h: "consecutiveHits (reduceState (run early_release) (EndTail (dbl (101 / 100))))
       = consecutiveHits (run early_release) + 1"
    using aligned_138 by (simp add: calculateMultiplierAndScore_def Let_def)
  show ?thesis using a t h time_early_release misaligned_201 by simp
qed

lemma release_error:
  assumes a: "0 \<le> a" "a \<le> 1000000" and b: "0 \<le> b" "b \<le> 10000"
  shows "\<bar>dbl (dbl (dbl (a * SECOND_PER_TICK) - b) - 2) - (a * (2 / 100) - b - 2)\<bar>
           \<le> 1 / 10 ^ 10"
proof -
  define t1 where "t1 = dbl (a * SECOND_PER_TICK)"
  define t2 where "t2 = dbl (t1 - b)"
  define t3 where "t3 = dbl (t2 - 2)"
  have c: "SECOND_PER_TICK = 5764607523034235 / 288230376151711744"
    by (rule SECOND_PER_TICK_value)
  have p: "0 \<le> a * SECOND_PER_TICK" "a * SECOND_PER_TICK \<le> 20001"
    "a * (2 / 100) - 1 / 10 ^ 12 \<le> a * SECOND_PER_TICK"
    "a * SECOND_PER_TICK \<le> a * (2 / 100) + 1 / 10 ^ 12"
    using a unfolding c by simp_all
  have "\<bar>a * SECOND_PER_TICK\<bar> \<le> 20001" using p by simp
  from dbl_within[OF this]
  have e1: "a * SECOND_PER_TICK - 20001 / 2 ^ 53 \<le> t1" "t1 \<le> a * SECOND_PER_TICK + 20001 / 2 ^ 53"
    by (simp_all add: t1_def)
  have "- 30002 \<le> t1 - b" "t1 - b \<le> 30002" using e1 p b by simp_all
  then have "\<bar>t1 - b\<bar> \<le> 30002" by linarith
  from dbl_within[OF this]
  have e2: "t1 - b - 30002 / 2 ^ 53 \<le> t2" "t2 \<le> t1 - b + 30002 / 2 ^ 53"
    by (simp_all add: t2_def)
  have "- 30005 \<le> t2 - 2" "t2 - 2 \<le> 30005" using e2 e1 p b by simp_all
  then have "\<bar>t2 - 2\<bar> \<le> 30005" by linarith
  from dbl_within[OF this]
  have e3: "t2 - 2 - 30005 / 2 ^ 53 \<le> t3" "t3 \<le> t2 - 2 + 30005 / 2 ^ 53"
    by (simp_all add: t3_def)
  have "- (1 / 10 ^ 10) \<le> t3 - (a * (2 / 100) - b - 2)"
    "t3 - (a * (2 / 100) - b - 2) \<le> 1 / 10 ^ 10"
    using e1 e2 e3 p(3,4) by simp_all
  then have "\<bar>t3 - (a * (2 / 100) - b - 2)\<bar> \<le> 1 / 10 ^ 10" by linarith
  then show ?thesis by (simp only: t1_def t2_def t3_def)
qed

text \<open>
  C6, amended. A tail release is judged by time, on the deviation as the doubles give it:
  it is aligned exactly when \<open>\<bar>time * 0.02 - endTime - 2\<bar> \<le> 0.25\<close> with the product and
  the two differences each rounded to the nearest double. Aligned, the streak grows by
  one, the multiplier is raised by 0.2 when the new streak is a multiple of 10 and
  rounded to one decimal, and the score grows by that multiplier, rounded to one decimal.
  Not aligned, the streak is reset to 0 and the multiplier to 1, and the score stays. Up
  to a million ticks and end times up to ten thousand seconds the judgement is that of
  the exact deviation, unless the exact deviation is within \<open>10^-9\<close> of 0.25.
\<close>

theorem tail_release:
  "(isTailAlign s endTime \<longleftrightarrow>
      \<bar>dbl (dbl (dbl (time s * dbl (2 / 100)) - endTime) - 2)\<bar> \<le> 25 / 100)
   \<and> reduceState s (EndTail endTime) =
       (if isTailAlign s endTime
        then s\<lparr> score := round_1dp (score s + 1 * round_1dp
                 (if js_rem (consecutiveHits s + 1) 10 = 0
                  then multiplier s + 2 / 10 else multiplier s)),
               consecutiveHits := consecutiveHits s + 1,
               multiplier := round_1dp
                 (if js_rem (consecutiveHits s + 1) 10 = 0
                  then multiplier s + 2 / 10 else multiplier s) \<rparr>
        else s\<lparr> consecutiveHits := 0, multiplier := 1 \<rparr>)
   \<and> (0 \<le> time s \<and> time s \<le> 1000000 \<and> 0 \<le> endTime \<and> endTime \<le> 10000 \<longrightarrow>
        (\<bar>time s * (2 / 100) - endTime - 2\<bar> \<le> 25 / 100 - 1 / 10 ^ 9 \<longrightarrow> isTailAlign s endTime)
        \<and> (25 / 100 + 1 / 10 ^ 9 \<le> \<bar>time s * (2 / 100) - endTime - 2\<bar>
             \<longrightarrow> \<not> isTailAlign s endTime))"
proof (intro conjI impI)
  show al: "isTailAlign s endTime \<longleftrightarrow>
      \<bar>dbl (dbl (dbl (time s * dbl (2 / 100)) - endTime) - 2)\<bar> \<le> 25 / 100"
    by (simp add: isTailAlign_def SECOND_PER_TICK_def NOTE_TRAVEL_DURATION_def dbl_2)
  show "reduceState s (EndTail endTime) =
       (if isTailAlign s endTime
        then s\<lparr> score := round_1dp (score s + 1 * round_1dp
                 (if js_rem (consecutiveHits s + 1) 10 = 0
                  then multiplier s + 2 / 10 else multiplier s)),
               consecutiveHits := consecutiveHits s + 1,
               multiplier := round_1dp
                 (if js_rem (consecutiveHits s + 1) 10 = 0
                  then multiplier s + 2 / 10 else multiplier s) \<rparr>
        else s\<lparr> consecutiveHits := 0, multiplier := 1 \<rparr>)"
    by (simp add: calculateMultiplierAndScore_def Let_def round_1dp_def Math_round_round)
next
  assume r: "0 \<le> time s \<and> time s \<le> 1000000 \<and> 0 \<le> endTime \<and> endTime \<le> 10000"
  define T where "T = dbl (dbl (dbl (time s * SECOND_PER_TICK) - endTime) - 2)"
  define A where "A = time s * (2 / 100) - endTime - 2"
  have "\<bar>T - A\<bar> \<le> 1 / 10 ^ 10"
    unfolding T_def A_def using r by (intro release_error) simp_all
  from abs_leD[OF this] have e: "A - 1 / 10 ^ 10 \<le> T" "T \<le> A + 1 / 10 ^ 10" by simp_all
  have d: "isTailAlign s endTime \<longleftrightarrow> \<bar>T\<bar> \<le> 25 / 100"
    by (simp add: isTailAlign_def NOTE_TRAVEL_DURATION_def dbl_2 T_def)
  {
    assume "\<bar>time s * (2 / 100) - endTime - 2\<bar> \<le> 25 / 100 - 1 / 10 ^ 9"
    then have "\<bar>A\<bar> \<le> 25 / 100 - 1 / 10 ^ 9" by (simp only: A_def)
    from abs_leD[OF this] have "- (25 / 100) \<le> T" "T \<le> 25 / 100" using e by simp_all
    then show "isTailAlign s endTime" unfolding d by linarith
  next
    assume "25 / 100 + 1 / 10 ^ 9 \<le> \<bar>time s * (2 / 100) - endTime - 2\<bar>"
    then have "25 / 100 + 1 / 10 ^ 9 \<le> \<bar>A\<bar>" by (simp only: A_def)
    then have "25 / 100 + 1 / 10 ^ 9 \<le> A \<or> A \<le> - (25 / 100 + 1 / 10 ^ 9)" by linarith
    then have "25 / 100 < T \<or> T < - (25 / 100)" using e by auto
    then show "\<not> isTailAlign s endTime" unfolding d by linarith
  }
qed

text \<open>
  The witness: after the tick 200 a release with end time 2 is on time and scores, and a
  release with end time 3 is a second early and resets the streak.
\<close>

theorem tail_release_witness:
  "isTailAlign (run (clock 0 201)) 2
   \<and> reduceState (run (clock 0 201)) (EndTail 2)
       = (run (clock 0 201))\<lparr> score := 1, consecutiveHits := 1, multiplier := 1 \<rparr>
   \<and> \<not> isTailAlign (run (clock 0 201)) 3
   \<and> reduceState (run (clock 0 201)) (EndTail 3)
       = (run (clock 0 201))\<lparr> consecutiveHits := 0, multiplier := 1 \<rparr>"
proof -
  let ?s = "run (clock 0 201)"
  have s: "time ?s = 200" "score ?s = 0" "consecutiveHits ?s = 0" "multiplier ?s = 1"
    by (simp_all add: after_200_ticks initialState_def)
  have r: "round_1dp 1 = 1" "round_1dp 2 = 2" "js_rem 1 10 = 1"
    by (simp_all add: round_1dp_def js_rem_def trunc_def)
  from tail_release[of ?s 2, THEN conjunct2, THEN conjunct2] s
  have a: "isTailAlign ?s 2" by simp
  from tail_release[of ?s 3, THEN conjunct2, THEN conjunct2] s
  have b: "\<not> isTailAlign ?s 3" by simp
  from tail_release[of ?s 2, THEN conjunct2, THEN conjunct1] a s r
  have c: "reduceState ?s (EndTail 2) = ?s\<lparr> score := 1, consecutiveHits := 1, multiplier := 1 \<rparr>"
    by simp
  from tail_release[of ?s 3, THEN conjunct2, THEN conjunct1] b
  have d: "reduceState ?s (EndTail 3) = ?s\<lparr> consecutiveHits := 0, multiplier := 1 \<rparr>"
    by simp
  show ?thesis using a b c d by simp
qed

section \<open>The score never falls\<close>

lemma floor_ge_10: "1 \<le> m \<Longrightarrow> 1 \<le> Math_round (m * 10) / 10"
proof -
  assume "1 \<le> m"
  then have "of_int 10 \<le> m * 10 + 1 / 2" by simp
  then have "10 \<le> \<lfloor>m * 10 + 1 / 2\<rfloor>" by (simp only: le_floor_iff)
  then have "10 \<le> Math_round (m * 10)" by (simp add: Math_round_def)
  then show ?thesis by simp
qed

lemma roundedMultiplier_ge_1:
  assumes "1 \<le> multiplier s"
  shows "1 \<le> roundedMultiplier (calculateMultiplierAndScore s)"
proof -
  define nm where
    "nm = (if js_rem (consecutiveHits s + 1) 10 = 0 then multiplier s + 2 / 10 else multiplier s)"
  have "1 \<le> nm" using assms by (simp add: nm_def)
  then have "1 \<le> Math_round (nm * 10) / 10" by (rule floor_ge_10)
  moreover have "roundedMultiplier (calculateMultiplierAndScore s) = Math_round (nm * 10) / 10"
    by (simp only: calculateMultiplierAndScore_def Let_def nm_def ScoreUpdate.simps)
  ultimately show ?thesis by simp
qed

lemma roundedScore_ge:
  assumes "1 \<le> multiplier s"
  shows "score s \<le> roundedScore (calculateMultiplierAndScore s)"
proof -
  define rm where "rm = roundedMultiplier (calculateMultiplierAndScore s)"
  have rm1: "1 \<le> rm" unfolding rm_def by (rule roundedMultiplier_ge_1[OF assms])
  have "(score s + 1 * rm) * 10 + 1 / 2 - 1 < of_int \<lfloor>(score s + 1 * rm) * 10 + 1 / 2\<rfloor>"
    by linarith
  then have "score s * 10 \<le> Math_round ((score s + 1 * rm) * 10)"
    using rm1 by (simp add: Math_round_def)
  moreover have "roundedScore (calculateMultiplierAndScore s) = Math_round ((score s + 1 * rm) * 10) / 10"
    by (simp add: rm_def calculateMultiplierAndScore_def Let_def)
  ultimately show ?thesis by simp
qed

lemma multiplier_step: "1 \<le> multiplier s \<Longrightarrow> 1 \<le> multiplier (reduceState s e)"
  by (cases e) (auto simp: tick_def Let_def roundedMultiplier_ge_1 split: option.splits)

lemma score_step: "1 \<le> multiplier s \<Longrightarrow> score s \<le> score (reduceState s e)"
  by (cases e) (auto simp: tick_def Let_def roundedScore_ge split: option.splits)

lemma run_snoc: "run (es @ [e]) = reduceState (run es) e"
  by (simp add: run_def)

lemma multiplier_run: "1 \<le> multiplier (run es)"
proof (induction es rule: rev_induct)
  case Nil
  then show ?case by (simp add: run_def initialState_def)
next
  case (snoc e es)
  then show ?case by (simp add: run_snoc multiplier_step)
qed

text \<open>
  C9. In every state the reducer reaches, no event lowers the score.
\<close>

theorem score_monotone: "score (run es) \<le> score (reduceState (run es) e)"
  by (rule score_step[OF multiplier_run])

section \<open>Values and references\<close>

text \<open>
  In every state the reducer reaches the identifiers are in order. Two live notes are
  then equal exactly when their identifiers are, and no live note is an entry of
  \<^verbatim>\<open>playNote\<close>: comparing notes by value gives what comparing references gives.
\<close>

lemma digits_not_Nil: "digits n \<noteq> []"
  by (subst digits.simps) simp

lemma digit_char_inj:
  assumes "char_of (48 + a) = (char_of (48 + b) :: char)" "a < 10" "b < (10::nat)"
  shows "a = b"
proof -
  from assms(1)
  have "(of_char (char_of (48 + a) :: char) :: nat) = of_char (char_of (48 + b) :: char)"
    by simp
  then have "(48 + a) mod 256 = (48 + b) mod 256"
    by (simp add: take_bit_eq_mod)
  then show ?thesis using assms(2,3) by simp
qed

lemma digits_inj: "digits n = digits m \<Longrightarrow> n = m"
proof (induction n arbitrary: m rule: digits.induct)
  case (1 n)
  show ?case
  proof (cases "n < 10")
    case True
    then have dn: "digits n = [char_of (48 + n)]" by (subst digits.simps) simp
    show ?thesis
    proof (cases "m < 10")
      case mlt: True
      then have "digits m = [char_of (48 + m)]" by (subst digits.simps) simp
      then show ?thesis using dn "1.prems" True mlt by (auto dest: digit_char_inj)
    next
      case False
      then have "digits m = digits (m div 10) @ [char_of (48 + m mod 10)]"
        by (subst digits.simps) simp
      then show ?thesis using dn "1.prems" digits_not_Nil[of "m div 10"] by simp
    qed
  next
    case False
    then have dn: "digits n = digits (n div 10) @ [char_of (48 + n mod 10)]"
      by (subst digits.simps) simp
    show ?thesis
    proof (cases "m < 10")
      case True
      then have "digits m = [char_of (48 + m)]" by (subst digits.simps) simp
      then show ?thesis using dn "1.prems" digits_not_Nil[of "n div 10"] by simp
    next
      case mge: False
      then have dm: "digits m = digits (m div 10) @ [char_of (48 + m mod 10)]"
        by (subst digits.simps) simp
      from dn dm "1.prems" have e1: "digits (n div 10) = digits (m div 10)"
        and e2: "char_of (48 + n mod 10) = (char_of (48 + m mod 10) :: char)" by simp_all
      from "1.IH"[OF False e1] have q: "n div 10 = m div 10" .
      from digit_char_inj[OF e2] have r: "n mod 10 = m mod 10" by simp
      have "n = 10 * (n div 10) + n mod 10" by simp
      also have "\<dots> = 10 * (m div 10) + m mod 10" using q r by simp
      also have "\<dots> = m" by simp
      finally show ?thesis .
    qed
  qed
qed

lemma ids_ok_init: "ids_ok initialState"
  by (simp add: ids_ok_def initialState_def)

lemma note_id_moveNote: "note_id (moveNote n) = note_id n"
  by (simp add: moveNote_def)

lemma note_id_comp_moveNote: "note_id \<circ> moveNote = note_id"
  by (simp add: fun_eq_iff note_id_moveNote)

lemma ids_ok_tick: assumes "ids_ok s" shows "ids_ok (tick s e)"
proof -
  have "map note_id (map moveNote (filter (\<lambda>n. \<not> noteExpired e n) (live_note s)))
      = map note_id (filter (\<lambda>n. \<not> noteExpired e n) (live_note s))"
    by (simp add: comp_def note_id_moveNote)
  moreover have "distinct (map note_id (filter (\<lambda>n. \<not> noteExpired e n) (live_note s)))"
    using assms by (simp add: ids_ok_def distinct_map_filter)
  ultimately show ?thesis
    using assms
    by (auto simp: ids_ok_def tick_def Let_def note_id_comp_moveNote note_id_moveNote)
qed

lemma ids_ok_spawn: assumes "ids_ok s" shows "ids_ok (reduceState s (MusicNote n))"
proof -
  let ?new = "createNote s True n"
  have nid: "note_id ?new = ''note'' @ digits (noteCount s)" by (simp add: createNote_def)
  have fresh: "note_id ?new \<notin> set (map note_id (live_note s))"
  proof
    assume "note_id ?new \<in> set (map note_id (live_note s))"
    then obtain a where a: "a \<in> set (live_note s)" "note_id a = note_id ?new" by auto
    with assms obtain k where "k < noteCount s" "note_id a = ''note'' @ digits k"
      by (auto simp: ids_ok_def)
    with a nid have "digits k = digits (noteCount s)" by simp
    then have "k = noteCount s" by (rule digits_inj)
    with \<open>k < noteCount s\<close> show False by simp
  qed
  have pn: "\<forall>p \<in> set (playNote s). note_id p \<noteq> note_id ?new"
  proof
    fix p assume p: "p \<in> set (playNote s)"
    with assms have "note_id p = [] \<or> (\<exists>k < noteCount s. note_id p = ''note'' @ digits k)"
      by (simp add: ids_ok_def)
    then show "note_id p \<noteq> note_id ?new"
    proof
      assume "note_id p = []" then show ?thesis using nid by simp
    next
      assume "\<exists>k < noteCount s. note_id p = ''note'' @ digits k"
      then obtain k where k: "k < noteCount s" "note_id p = ''note'' @ digits k" by auto
      show ?thesis
      proof
        assume "note_id p = note_id ?new"
        with k nid have "digits k = digits (noteCount s)" by simp
        then have "k = noteCount s" by (rule digits_inj)
        with k show False by simp
      qed
    qed
  qed
  have live: "live_note (reduceState s (MusicNote n)) = live_note s @ [?new]"
    and cnt: "noteCount (reduceState s (MusicNote n)) = Suc (noteCount s)"
    and pl: "playNote (reduceState s (MusicNote n)) = playNote s"
    and bg: "backgroundNote (reduceState s (MusicNote n)) = backgroundNote s"
    by (simp_all add: Let_def split: option.splits)
  show ?thesis
    unfolding ids_ok_def live cnt pl bg
    using assms fresh pn nid
    by (auto simp: ids_ok_def less_Suc_eq)
qed

lemma ids_ok_press: assumes "ids_ok s" shows "ids_ok (reduceState s (KeyPressEvent c))"
proof (cases "find (\<lambda>n. assignColumn (pitch n) = c) (live_note s)")
  case None
  then show ?thesis using assms by (simp add: ids_ok_def)
next
  case (Some a)
  then have ain: "a \<in> set (live_note s)" by (auto simp: find_Some_iff)
  show ?thesis
  proof (cases "isAligned a")
    case False
    then show ?thesis using Some assms by (simp add: ids_ok_def)
  next
    case True
    have d: "distinct (map note_id (live_note s))" using assms by (simp add: ids_ok_def)
    have gone: "note_id a \<notin> set (map note_id (filter (\<lambda>n. n \<noteq> a) (live_note s)))"
    proof
      assume "note_id a \<in> set (map note_id (filter (\<lambda>n. n \<noteq> a) (live_note s)))"
      then obtain b where b: "b \<in> set (live_note s)" "b \<noteq> a" "note_id b = note_id a" by auto
      with ain d show False by (meson distinct_map inj_onD)
    qed
    have live: "live_note (reduceState s (KeyPressEvent c)) = filter (\<lambda>n. n \<noteq> a) (live_note s)"
      and pl: "playNote (reduceState s (KeyPressEvent c)) = playNote s @ [a]"
      and cnt: "noteCount (reduceState s (KeyPressEvent c)) = noteCount s"
      and bg: "backgroundNote (reduceState s (KeyPressEvent c)) = backgroundNote s"
      using Some True by (simp_all add: Let_def)
    show ?thesis
      unfolding ids_ok_def live pl cnt bg
      using assms gone ain by (auto simp: ids_ok_def distinct_map_filter)
  qed
qed

lemma ids_ok_step: assumes "ids_ok s" shows "ids_ok (reduceState s e)"
proof (cases e)
  case (MusicNote n) then show ?thesis using ids_ok_spawn[OF assms] by simp
next
  case (Tick el) then show ?thesis using ids_ok_tick[OF assms] by simp
next
  case (KeyPressEvent c) then show ?thesis using ids_ok_press[OF assms] by simp
next
  case (BackgroundNote n)
  then show ?thesis using assms by (auto simp: ids_ok_def createNote_def)
next
  case (EndTail t) then show ?thesis using assms by (simp add: ids_ok_def Let_def)
next
  case (GameEndNumber g) then show ?thesis using assms by (simp add: ids_ok_def)
qed

lemma ids_ok_run: "ids_ok (run es)"
proof (induction es rule: rev_induct)
  case Nil then show ?case by (simp add: run_def ids_ok_init)
next
  case (snoc e es) then show ?case by (simp add: run_snoc ids_ok_step)
qed

lemma value_equality_is_identity:
  "a \<in> set (live_note (run es)) \<Longrightarrow> b \<in> set (live_note (run es)) \<Longrightarrow>
     (a = b \<longleftrightarrow> note_id a = note_id b)"
  "a \<in> set (live_note (run es)) \<Longrightarrow> p \<in> set (playNote (run es)) \<Longrightarrow> a \<noteq> p"
  using ids_ok_run[of es] by (auto simp: ids_ok_def distinct_map dest: inj_onD)

section \<open>The random number generator, in doubles\<close>

lemma bitlen_le_53: assumes "0 \<le> n" "n < 2 ^ 53" shows "bitlen n \<le> 53"
proof (cases "n = 0")
  case True then show ?thesis by simp
next
  case False
  then have pos: "0 < n" using assms by simp
  from bitlen_bounds[OF pos] have "(2::int) ^ nat (bitlen n - 1) < 2 ^ 53" using assms by linarith
  then have "nat (bitlen n - 1) < 53"
    by (intro power_less_imp_less_exp[of "2::int"]) simp_all
  then show ?thesis by linarith
qed

lemma bitlen_ge_54: assumes "2 ^ 53 \<le> n" shows "54 \<le> bitlen n"
proof -
  have pos: "0 < n" using assms by (smt (verit) zero_less_power)
  from bitlen_bounds[OF pos] have "(2::int) ^ 53 < 2 ^ nat (bitlen n)" using assms by linarith
  then have "53 < nat (bitlen n)"
    by (intro power_less_imp_less_exp[of "2::int"]) simp_all
  then show ?thesis by linarith
qed

lemma fl_small: "\<bar>n\<bar> < 2 ^ 53 \<Longrightarrow> fl n = n"
  using bitlen_le_53[of "\<bar>n\<bar>"] by (simp add: fl_def)

lemma fl_even: assumes "2 ^ 53 \<le> n" shows "even (fl n)"
proof -
  have "0 < n" using assms by (smt (verit) zero_less_power)
  then have k: "1 \<le> bitlen \<bar>n\<bar> - 53" using bitlen_ge_54[OF assms] by simp
  then have "even ((2::int) ^ nat (bitlen \<bar>n\<bar> - 53))" by simp
  then show ?thesis using k by (simp add: fl_def Let_def)
qed

lemma fl_ge: assumes "2 ^ 53 \<le> n" shows "2 ^ 53 \<le> fl n"
proof -
  have pos: "0 < n" using assms by (smt (verit) zero_less_power)
  define k where "k = nat (bitlen n - 53)"
  have kpos: "1 \<le> bitlen n - 53" using bitlen_ge_54[OF assms] by simp
  have n_abs: "\<bar>n\<bar> = n" using pos by simp
  define q :: int where "q = 2 ^ k"
  have qpos: "0 < q" by (simp add: q_def)
  have "2 ^ nat (bitlen n - 1) \<le> n" using bitlen_bounds[OF pos] by simp
  moreover have "nat (bitlen n - 1) = 52 + k" using kpos by (simp add: k_def)
  ultimately have "2 ^ 52 * q \<le> n" by (simp add: q_def power_add)
  then have "2 ^ 52 \<le> n div q" using qpos
    by (metis mult.commute nonzero_mult_div_cancel_left zdiv_mono1 less_irrefl)
  then have lo: "2 ^ 52 * q \<le> (n div q) * q" using qpos by simp
  have "2 \<le> q" using kpos by (simp add: q_def k_def self_le_power)
  then have "(2::int) ^ 53 \<le> 2 ^ 52 * q" by simp
  then have a: "2 ^ 53 \<le> (n div q) * q" using lo by linarith
  then have b: "2 ^ 53 \<le> (n div q + 1) * q" using qpos by (simp add: algebra_simps)
  show ?thesis using a b kpos n_abs by (simp add: fl_def Let_def k_def[symmetric] q_def[symmetric])
qed


lemma js_rem_int_nonneg: "0 \<le> a \<Longrightarrow> 0 < b \<Longrightarrow> js_rem_int a b = a mod b"
  by (cases "a = 0") (simp_all add: js_rem_int_def)

lemma hash_exact:
  assumes "0 \<le> seed" "RNG_a * seed + RNG_c < 2 ^ 53"
  shows "hash seed = (RNG_a * seed + RNG_c) mod RNG_m"
proof -
  have p: "0 \<le> RNG_a * seed" using assms(1) by (simp add: RNG_a_def)
  have c: "0 \<le> RNG_c" by (simp add: RNG_c_def)
  have "fl (RNG_a * seed) = RNG_a * seed"
    using p c assms(2) by (intro fl_small) linarith
  moreover have "fl (RNG_a * seed + RNG_c) = RNG_a * seed + RNG_c"
    using p c assms(2) by (intro fl_small) linarith
  ultimately show ?thesis
    using p c by (simp add: hash_def js_rem_int_nonneg RNG_m_def)
qed

lemma hash_big:
  assumes "0 \<le> seed" "2 ^ 53 \<le> RNG_a * seed + RNG_c"
  shows "even (hash seed) \<and> hash seed = fl (fl (RNG_a * seed) + RNG_c) mod RNG_m"
proof -
  have p: "0 \<le> RNG_a * seed" using assms(1) by (simp add: RNG_a_def)
  have c: "0 \<le> RNG_c" by (simp add: RNG_c_def)
  have big: "2 ^ 53 \<le> fl (RNG_a * seed) + RNG_c"
  proof (cases "2 ^ 53 \<le> RNG_a * seed")
    case True
    then show ?thesis using fl_ge[OF True] c by linarith
  next
    case False
    then have "fl (RNG_a * seed) = RNG_a * seed" using p by (intro fl_small) linarith
    then show ?thesis using assms(2) by simp
  qed
  have ev: "even (fl (fl (RNG_a * seed) + RNG_c))" by (rule fl_even[OF big])
  have "(0::int) \<le> 2 ^ 53" by simp
  then have nn: "0 \<le> fl (fl (RNG_a * seed) + RNG_c)" using fl_ge[OF big] by linarith
  have eq: "hash seed = fl (fl (RNG_a * seed) + RNG_c) mod RNG_m"
    using nn by (simp add: hash_def js_rem_int_nonneg RNG_m_def)
  have "even RNG_m" by (simp add: RNG_m_def)
  then have "even (fl (fl (RNG_a * seed) + RNG_c) mod RNG_m)"
    using ev by (simp add: dvd_mod_iff)
  then show ?thesis using eq by simp
qed

lemma lcg_preimage:
  assumes "0 \<le> seed" "seed \<le> 8162278"
  shows "(1103515245 * seed + 12345) mod 2147483648 \<noteq> (2147483647::int)"
proof
  assume h: "(1103515245 * seed + 12345) mod 2147483648 = (2147483647::int)"
  have "(1103515245 * seed + 12345 + 1) mod 2147483648
        = ((1103515245 * seed + 12345) mod 2147483648 + 1) mod 2147483648"
    by (simp add: mod_add_left_eq)
  then have "(1103515245 * seed + 12345 + 1) mod 2147483648 = 0"
    using h by simp
  then have "2147483648 dvd (1103515245 * seed + 12345 + 1)"
    by (simp add: mod_eq_0_iff_dvd)
  then have d: "2147483648 dvd 1857678181 * (1103515245 * seed + 12345 + 1)"
    by (rule dvd_mult)
  have e: "1857678181 * (1103515245 * seed + 12345 + 1)
        = (seed - 230538014) + 2147483648 * (954594553 * seed + 10680)"
    by (simp add: algebra_simps)
  from d have "2147483648 dvd (seed - 230538014) + 2147483648 * (954594553 * seed + 10680)"
    unfolding e .
  then have "2147483648 dvd seed - 230538014"
    by (metis dvd_add_left_iff dvd_triv_left)
  then have "2147483648 dvd 230538014 - seed"
    by (simp add: dvd_diff_commute)
  moreover have "0 < 230538014 - seed" "230538014 - seed < 2147483648"
    using assms by simp_all
  ultimately show False
    using zdvd_not_zless by blast
qed

lemma hash_ne_max: assumes "0 \<le> seed" shows "hash seed \<noteq> RNG_m - 1"
proof (cases "RNG_a * seed + RNG_c < 2 ^ 53")
  case True
  then have "seed \<le> 8162278" by (simp add: RNG_a_def RNG_c_def)
  from lcg_preimage[OF assms this] show ?thesis
    using hash_exact[OF assms True] by (simp add: RNG_a_def RNG_c_def RNG_m_def)
next
  case False
  then have "2 ^ 53 \<le> RNG_a * seed + RNG_c" by simp
  then have "even (hash seed)" using hash_big[OF assms] by blast
  moreover have "odd (RNG_m - 1)" by (simp add: RNG_m_def)
  ultimately show ?thesis by metis
qed

lemma hash_range: assumes "0 \<le> seed" shows "0 \<le> hash seed \<and> hash seed < RNG_m"
proof (cases "RNG_a * seed + RNG_c < 2 ^ 53")
  case True
  show ?thesis using hash_exact[OF assms True] by (simp add: RNG_m_def)
next
  case False
  then have "2 ^ 53 \<le> RNG_a * seed + RNG_c" by simp
  then have "hash seed = fl (fl (RNG_a * seed) + RNG_c) mod RNG_m"
    using hash_big[OF assms] by blast
  then show ?thesis by (simp add: RNG_m_def)
qed

text \<open>
  On every seed that is not negative the scaled hash lies in \<open>[0, 1)\<close>. The exact
  congruential map reaches \<open>2^31 - 1\<close>, whose scaled value is 1, at no seed up to
  8162278, where \<^verbatim>\<open>hash\<close> is that map; beyond, the sum is at least \<open>2^53\<close>, its double
  is even, and so is the remainder. At 230538014, the least seed the exact map sends to
  \<open>2^31 - 1\<close>, \<^verbatim>\<open>hash\<close> returns 0.
\<close>

lemma scale_hash_range:
  assumes "0 \<le> seed" shows "0 \<le> scale (hash seed) \<and> scale (hash seed) < 1"
proof -
  have "hash seed < RNG_m - 1" using hash_range[OF assms] hash_ne_max[OF assms] by linarith
  then have "real_of_int (hash seed) < 2147483647" by (simp add: RNG_m_def)
  moreover have "0 \<le> real_of_int (hash seed)" using hash_range[OF assms] by simp
  ultimately show ?thesis by (simp add: scale_def RNG_m_def)
qed

lemma hash_at_preimage:
  "(RNG_a * 230538014 + RNG_c) mod RNG_m = RNG_m - 1 \<and> hash 230538014 = 0"
  by code_simp

text \<open>
  C8. \<^verbatim>\<open>hash\<close> is not the linear congruential map on the seeds the stream itself
  produces. The stream seeded with 100 reaches the seed 829870797 with its first value.
  The product 1103515245 * 829870797 = 915775075869800265 needs 60 bits; as a double it
  is 915775075869800320, and after adding 12345 the sum is rounded to a multiple of 128
  again. \<^verbatim>\<open>hash\<close> returns 1533044608, where the congruential map gives 1533044610.
\<close>

theorem hash_is_not_the_congruential_map:
  "hash 100 = 829870797
   \<and> hash 829870797 = 1533044608
   \<and> (RNG_a * 829870797 + RNG_c) mod RNG_m = 1533044610
   \<and> createRngStream 100 2 = [829870797 / 2147483647, 1533044608 / 2147483647]"
proof -
  have h1: "hash 100 = 829870797" by code_simp
  have h2: "hash 829870797 = 1533044608" by code_simp
  have lcg: "(RNG_a * 829870797 + RNG_c) mod RNG_m = 1533044610"
    by (simp add: RNG_a_def RNG_c_def RNG_m_def)
  have "[0..<2] = [0, 1]" by (simp add: upt_rec)
  then have "createRngStream 100 2 = [829870797 / 2147483647, 1533044608 / 2147483647]"
    by (simp add: createRngStream_def scale_def RNG_m_def h1 h2)
  then show ?thesis using h1 h2 lcg by simp
qed

end
